theory Spec2Isabelle
  imports Complex_Main
begin

section \<open>JavaScript numbers\<close>

text \<open>
  A TypeScript \<^verbatim>\<open>number\<close> is an IEEE-754 binary64 value. A finite one is modelled by
  the real number it stands for, and every arithmetic operation of the source is the exact
  operation followed by \<open>fl\<close>, the rounding to the nearest binary64 value with ties to
  the even significand, subnormal values included. A decimal literal \<open>d\<close> of the source
  is \<open>fl d\<close>. The sign of zero, \<^verbatim>\<open>NaN\<close> and the infinities are not values of the
  model: where the source can meet them (a division by zero, an absent optional field) the
  case is written out. A result of magnitude \<open>2 ^ 1024\<close> or more, which JavaScript
  turns into an infinity, is outside the model; the scores and weights of the services are
  at most 1 and do not reach it.
\<close>

definition pow2 :: "int \<Rightarrow> real" where
  "pow2 e = (if 0 \<le> e then 2 ^ nat e else 1 / 2 ^ nat (- e))"

text \<open>
  The binary exponent of a positive real \<open>a\<close>, kept within the exponent range of
  binary64: the \<open>e\<close> with \<open>2 ^ e \<le> a < 2 ^ (e + 1)\<close>, but at least \<open>- 1022\<close>
  (below it the values are subnormal) and at most \<open>1023\<close>.
\<close>

function expUp :: "real \<Rightarrow> int \<Rightarrow> int" where
  "expUp x e = (if 2 \<le> x \<and> e < 1023 then expUp (x / 2) (e + 1) else e)"
  by pat_completeness auto
termination
  by (relation "measure (\<lambda>(x, e). nat (1023 - e))") auto

function expDown :: "real \<Rightarrow> int \<Rightarrow> int" where
  "expDown x e = (if x < 1 \<and> - 1022 < e then expDown (2 * x) (e - 1) else e)"
  by pat_completeness auto
termination
  by (relation "measure (\<lambda>(x, e). nat (e + 1022))") auto

definition binade :: "real \<Rightarrow> int" where
  "binade a = (if 1 \<le> a then expUp a 0 else expDown a 0)"

text \<open>Rounding to the nearest integer, a tie going to the even one.\<close>

definition roundEven :: "real \<Rightarrow> int" where
  "roundEven y =
     (let f = \<lfloor>y\<rfloor>; d = y - of_int f
      in if d < 1 / 2 then f
         else if 1 / 2 < d then f + 1
         else if even f then f else f + 1)"

text \<open>
  The rounding of a real to binary64: the significand has 53 bits, so the spacing of the
  values around \<open>a\<close> is \<open>2 ^ (binade a - 52)\<close>.
\<close>

definition fl :: "real \<Rightarrow> real" where
  "fl x =
     (if x = 0 then 0
      else
        let a = \<bar>x\<bar>;
            q = pow2 (binade a - 52);
            m = of_int (roundEven (a / q)) * q
        in if x < 0 then - m else m)"

text \<open>The operators \<^verbatim>\<open>+\<close>, \<^verbatim>\<open>-\<close>, \<^verbatim>\<open>*\<close> and \<^verbatim>\<open>/\<close> (by a divisor that is not zero).\<close>

definition addD :: "real \<Rightarrow> real \<Rightarrow> real" where
  "addD x y = fl (x + y)"

definition subD :: "real \<Rightarrow> real \<Rightarrow> real" where
  "subD x y = fl (x - y)"

definition mulD :: "real \<Rightarrow> real \<Rightarrow> real" where
  "mulD x y = fl (x * y)"

definition divD :: "real \<Rightarrow> real \<Rightarrow> real" where
  "divD x y = fl (x / y)"

section \<open>Risk assessment service: data model\<close>

datatype severity = LOW | MEDIUM | HIGH | CRITICAL

datatype recommendation = AUTO_APPROVE | MANUAL_REVIEW | REJECT

text \<open>
  \<^verbatim>\<open>interface RiskFactor\<close>. The field \<^verbatim>\<open>type\<close> is called \<open>ftype\<close> here; the
  optional \<^verbatim>\<open>details\<close> payload is written by the assessors and read by nothing, and is
  left out.
\<close>

record RiskFactor =
  ftype :: string
  severity :: severity
  score :: real
  description :: string

text \<open>The instance constants of \<^verbatim>\<open>class RiskService\<close>.\<close>

definition RISK_THRESHOLDS_LOW :: real where
  "RISK_THRESHOLDS_LOW = fl 0.3"




definition AUTO_APPROVE_THRESHOLD :: real where
  "AUTO_APPROVE_THRESHOLD = fl 0.2"

definition MANUAL_REVIEW_THRESHOLD :: real where
  "MANUAL_REVIEW_THRESHOLD = fl 0.7"

section \<open>Score aggregation and the decision policy\<close>

text \<open>The table \<^verbatim>\<open>weights\<close> local to \<^verbatim>\<open>calculateOverallScore\<close>.\<close>

fun weights :: "severity \<Rightarrow> real" where
  "weights LOW = fl 0.1"
| "weights MEDIUM = fl 0.3"
| "weights HIGH = fl 0.6"
| "weights CRITICAL = fl 1.0"

text \<open>
  The body of the \<^verbatim>\<open>forEach\<close> callback: the pair is
  \<^verbatim>\<open>(totalWeightedScore, totalWeight)\<close>.
\<close>

definition accumulate :: "real \<times> real \<Rightarrow> RiskFactor \<Rightarrow> real \<times> real" where
  "accumulate acc factor =
     (let weight = weights (severity factor)
      in (addD (fst acc) (mulD (score factor) weight), addD (snd acc) weight))"

definition calculateOverallScore :: "RiskFactor list \<Rightarrow> real" where
  "calculateOverallScore factors =
     (if length factors = 0 then 0
      else
        let totals = foldl accumulate (0, 0) factors;
            totalWeightedScore = fst totals;
            totalWeight = snd totals
        in if totalWeight > 0 then divD totalWeightedScore totalWeight else 0)"


definition determineRecommendation :: "real \<Rightarrow> RiskFactor list \<Rightarrow> recommendation" where
  "determineRecommendation s factors =
     (let criticalFactors = filter (\<lambda>f. severity f = CRITICAL) factors
      in if length criticalFactors > 0 then REJECT
         else
           let highRiskFactors = filter (\<lambda>f. severity f = HIGH) factors
           in if length highRiskFactors > 0 \<or> s \<ge> MANUAL_REVIEW_THRESHOLD then MANUAL_REVIEW
              else if s \<le> AUTO_APPROVE_THRESHOLD then AUTO_APPROVE
              else MANUAL_REVIEW)"

section \<open>Orders and the data-access boundary\<close>

text \<open>
  The rows that Prisma hands to the services, with the fields the services read. The
  services compare the status columns with string literals, so they are strings here.
  An optional column is an \<open>option\<close>.
\<close>

record Document =
  doc_id :: string
  doc_orderId :: string
  fileType :: string
  ocrText :: "string option"
  ocrConfidence :: "real option"
  doc_status :: string

record ChatMessage =
  content :: string
  isFromUser :: bool

record KycVerification =
  kyc_status :: string
  riskScore :: "real option"

text \<open>
  A \<^verbatim>\<open>p2POrder\<close> row with the relations \<^verbatim>\<open>documents\<close>, \<^verbatim>\<open>chatMessages\<close> and
  \<^verbatim>\<open>kycVerification\<close> included; \<open>createdAt\<close> is in milliseconds since the epoch.
\<close>

record P2POrder =
  order_id :: string
  amount :: real
  paymentMethod :: string
  counterpartyId :: string
  order_status :: string
  createdAt :: int
  documents :: "Document list"
  chatMessages :: "ChatMessage list"
  kycVerification :: "KycVerification option"

text \<open>An exception of the services: \<^verbatim>\<open>new Error(message)\<close>.\<close>

datatype error = Error string






text \<open>
  JavaScript truthiness of an optional number, as in \<^verbatim>\<open>kyc.riskScore && ...\<close>: an absent
  value and the number 0 are both falsy.
\<close>

definition truthyNumber :: "real option \<Rightarrow> bool" where
  "truthyNumber x = (case x of None \<Rightarrow> False | Some v \<Rightarrow> v \<noteq> 0)"

text \<open>
  \<^verbatim>\<open>x && x < bound\<close> for an optional number \<open>x\<close>.
\<close>

definition presentAndBelow :: "real option \<Rightarrow> real \<Rightarrow> bool" where
  "presentAndBelow x bound = (truthyNumber x \<and> (case x of None \<Rightarrow> False | Some v \<Rightarrow> v < bound))"


text \<open>\<^verbatim>\<open>String.prototype.includes\<close> (here \<open>str_includes\<close>):
  the search string occurs at some position.\<close>

fun startsWith :: "string \<Rightarrow> string \<Rightarrow> bool" where
  "startsWith s [] = True"
| "startsWith [] (k # ks) = False"
| "startsWith (c # cs) (k # ks) = (c = k \<and> startsWith cs ks)"

fun str_includes :: "string \<Rightarrow> string \<Rightarrow> bool" where
  "str_includes [] k = (k = [])"
| "str_includes (c # cs) k = (startsWith (c # cs) k \<or> str_includes cs k)"

text \<open>\<^verbatim>\<open>String.prototype.toLowerCase\<close> on ASCII letters.\<close>

definition toLowerChar :: "char \<Rightarrow> char" where
  "toLowerChar c =
     (let n = (of_char c :: nat) in if 65 \<le> n \<and> n \<le> 90 then char_of (n + 32) else c)"

definition toLowerCase :: "string \<Rightarrow> string" where
  "toLowerCase s = map toLowerChar s"

section \<open>The seven risk assessors\<close>







definition suspiciousKeywords :: "string list" where
  "suspiciousKeywords = [''urgent'', ''hurry'', ''quick'', ''fast'', ''emergency'', ''problem'']"

definition assessCommunicationRisk :: "P2POrder \<Rightarrow> RiskFactor list \<Rightarrow> RiskFactor list" where
  "assessCommunicationRisk order fs =
     (if length (chatMessages order) = 0 then
        fs @ [\<lparr>ftype = ''NO_COMMUNICATION'', severity = MEDIUM, score = fl 0.3,
                description = ''No communication from counterparty''\<rparr>]
      else
        let userMessages = filter (\<lambda>msg. isFromUser msg) (chatMessages order);
            suspiciousMessages =
              filter (\<lambda>msg. list_ex (\<lambda>keyword. str_includes (toLowerCase (content msg)) keyword)
                               suspiciousKeywords) userMessages;
            fs1 = (if length suspiciousMessages > 0 then
                     fs @ [\<lparr>ftype = ''SUSPICIOUS_COMMUNICATION'', severity = MEDIUM,
                             score = fl 0.4,
                             description = ''Communication contains urgency indicators''\<rparr>]
                   else fs)
        in if length userMessages > 20 then
             fs1 @ [\<lparr>ftype = ''EXCESSIVE_MESSAGING'', severity = LOW, score = fl 0.2,
                      description = ''Unusually high number of messages''\<rparr>]
           else fs1)"

definition assessKYCRisk :: "P2POrder \<Rightarrow> RiskFactor list \<Rightarrow> RiskFactor list" where
  "assessKYCRisk order fs =
     (case kycVerification order of
        None \<Rightarrow>
          fs @ [\<lparr>ftype = ''NO_KYC_VERIFICATION'', severity = HIGH, score = fl 0.9,
                  description = ''KYC verification not completed''\<rparr>]
      | Some kyc \<Rightarrow>
          if kyc_status kyc = ''REJECTED'' then
            fs @ [\<lparr>ftype = ''KYC_REJECTED'', severity = CRITICAL, score = fl 1.0,
                    description = ''KYC verification was rejected''\<rparr>]
          else if kyc_status kyc = ''REQUIRES_REVIEW'' then
            fs @ [\<lparr>ftype = ''KYC_REQUIRES_REVIEW'', severity = HIGH, score = fl 0.7,
                    description = ''KYC verification requires manual review''\<rparr>]
          else if presentAndBelow (riskScore kyc) (fl 0.6) then
            fs @ [\<lparr>ftype = ''LOW_KYC_SCORE'', severity = MEDIUM, score = fl 0.5,
                    description = ''KYC verification score is below threshold''\<rparr>]
          else fs)"


section \<open>The risk assessment orchestrator\<close>







section \<open>KYC service: result record, scorer and classifier\<close>

datatype kyc_result_status = APPROVED | REJECTED | REQUIRES_REVIEW

text \<open>The \<^verbatim>\<open>checks\<close> object of \<^verbatim>\<open>interface KYCResult\<close>.\<close>

record KYCChecks =
  documentValid :: bool
  faceMatch :: bool
  livenessCheck :: bool
  sanctionsCheck :: bool
  addressVerification :: bool

text \<open>
  The \<^verbatim>\<open>extractedData\<close> object: every field is optional. The date of birth is kept as
  the string handed to \<^verbatim>\<open>parseDate\<close>; the fields \<^verbatim>\<open>nationality\<close>,
  \<^verbatim>\<open>issueDate\<close> and \<^verbatim>\<open>expiryDate\<close> are never written or read by the service and
  are left out.
\<close>

record ExtractedData =
  fullName :: "string option"
  dateOfBirth :: "string option"
  documentNumber :: "string option"
  address :: "string option"

record KYCResult =
  status :: kyc_result_status
  kyc_score :: real
  checks :: KYCChecks
  extractedData :: ExtractedData
  riskFactors :: "string list"
  recommendations :: "string list"

text \<open>
  \<^verbatim>\<open>Object.entries(result.checks)\<close>: the keys in the order in which
  \<^verbatim>\<open>verifyIdentity\<close> creates them.
\<close>

definition checkEntries :: "KYCChecks \<Rightarrow> (string \<times> bool) list" where
  "checkEntries c =
     [(''documentValid'', documentValid c),
      (''faceMatch'', faceMatch c),
      (''livenessCheck'', livenessCheck c),
      (''sanctionsCheck'', sanctionsCheck c),
      (''addressVerification'', addressVerification c)]"

text \<open>The table \<^verbatim>\<open>weights\<close> local to \<^verbatim>\<open>calculateKYCScore\<close>, looked up by key.\<close>

definition kycWeights :: "string \<Rightarrow> real option" where
  "kycWeights =
     map_of [(''documentValid'', fl 0.3),
             (''faceMatch'', fl 0.2),
             (''livenessCheck'', fl 0.15),
             (''sanctionsCheck'', fl 0.25),
             (''addressVerification'', fl 0.1)]"

text \<open>\<^verbatim>\<open>weights[check] || 0\<close>: an absent key, or the weight zero, gives 0.\<close>

definition weightOrZero :: "string \<Rightarrow> real" where
  "weightOrZero check =
     (case kycWeights check of None \<Rightarrow> 0 | Some w \<Rightarrow> if w \<noteq> 0 then w else 0)"

text \<open>The body of the \<^verbatim>\<open>for ... of\<close> loop over the entries.\<close>

definition addCheck :: "real \<Rightarrow> string \<times> bool \<Rightarrow> real" where
  "addCheck sc entry = (if snd entry then addD sc (weightOrZero (fst entry)) else sc)"

definition calculateKYCScore :: "KYCResult \<Rightarrow> real" where
  "calculateKYCScore result =
     (let sc = foldl addCheck 0 (checkEntries (checks result));
          penalty = mulD (real (length (riskFactors result))) (fl 0.1)
      in max 0 (subD sc penalty))"

definition determineKYCStatus :: "KYCResult \<Rightarrow> kyc_result_status" where
  "determineKYCStatus result =
     (if kyc_score result \<ge> fl 0.9 \<and> length (riskFactors result) = 0 then APPROVED
      else if kyc_score result < fl 0.3 \<or> list_ex (\<lambda>f. str_includes f ''sanctions'') (riskFactors result)
        then REJECTED
      else REQUIRES_REVIEW)"

text \<open>
  The checklist of the specification's third scenario, before scoring: every check but
  the sanctions check has passed, and the sanctions hit is the only risk reason.
\<close>

definition scenario3 :: KYCResult where
  "scenario3 =
     \<lparr>status = REQUIRES_REVIEW, kyc_score = 0,
      checks = \<lparr>documentValid = True, faceMatch = True, livenessCheck = True,
                sanctionsCheck = False, addressVerification = True\<rparr>,
      extractedData = \<lparr>fullName = Some ''A B'', dateOfBirth = None, documentNumber = None,
                       address = None\<rparr>,
      riskFactors = [''Name found on sanctions list''], recommendations = []\<rparr>"

section \<open>KYC service: the verification pipeline\<close>

text \<open>
  The row written by \<^verbatim>\<open>prisma.kycVerification.create\<close> (the time stamp
  \<^verbatim>\<open>verifiedAt\<close> is left out).
\<close>

record KycVerificationRow =
  kv_orderId :: string
  kv_status :: kyc_result_status
  kv_verificationData :: KYCResult
  kv_riskScore :: real

text \<open>
  What changes while \<^verbatim>\<open>verifyIdentity\<close> runs: the table of stored verifications
  and the number of \<^verbatim>\<open>Math.random()\<close> calls made so far.
\<close>

record KycWorld =
  kycVerifications :: "KycVerificationRow list"
  randomCalls :: nat

text \<open>
  What the KYC service takes from outside. Every Prisma call may reject (\<open>Inl\<close>);
  \<open>random\<close> is the sequence of values that \<^verbatim>\<open>Math.random()\<close> returns;
  \<open>extractPatterns\<close> is the regular-expression matcher of the OCR service, giving the
  entries (pattern source, first capture group) of the object it returns, in insertion
  order; \<open>createRejects\<close> says whether the insertion of a row into the table is refused.
\<close>

record KycEnv =
  random :: "nat \<Rightarrow> real"
  order_findUnique :: "string \<Rightarrow> error + P2POrder option"
  document_findUnique :: "string \<Rightarrow> error + Document option"
  document_findFirstSelfie :: "string \<Rightarrow> error + Document option"
  extractPatterns :: "string \<Rightarrow> string \<Rightarrow> (string \<times> string) list"
  createRejects :: "KycVerificationRow list \<Rightarrow> KycVerificationRow \<Rightarrow> error option"

text \<open>JavaScript truthiness of an optional string: absent and empty are falsy.\<close>

definition truthyString :: "string option \<Rightarrow> bool" where
  "truthyString x = (case x of None \<Rightarrow> False | Some s \<Rightarrow> s \<noteq> [])"

definition mathRandom :: "KycEnv \<Rightarrow> KycWorld \<Rightarrow> real \<times> KycWorld" where
  "mathRandom env w = (random env (randomCalls w), w\<lparr>randomCalls := Suc (randomCalls w)\<rparr>)"

text \<open>The mock providers: each draws one random number.\<close>

definition validateDocument :: "KycEnv \<Rightarrow> KycWorld \<Rightarrow> bool \<times> KycWorld" where
  "validateDocument env w = (let (x, w') = mathRandom env w in (x > fl 0.1, w'))"

definition performFaceMatch :: "KycEnv \<Rightarrow> KycWorld \<Rightarrow> bool \<times> KycWorld" where
  "performFaceMatch env w = (let (x, w') = mathRandom env w in (x > fl 0.2, w'))"

definition performLivenessCheck :: "KycEnv \<Rightarrow> KycWorld \<Rightarrow> bool \<times> KycWorld" where
  "performLivenessCheck env w = (let (x, w') = mathRandom env w in (x > fl 0.1, w'))"

definition verifyAddress :: "KycEnv \<Rightarrow> string option \<Rightarrow> KycWorld \<Rightarrow> bool \<times> KycWorld" where
  "verifyAddress env addr w =
     (if \<not> truthyString addr then (False, w)
      else let (x, w') = mathRandom env w in (x > fl 0.3, w'))"

definition checkSanctionsList :: "KycEnv \<Rightarrow> string \<Rightarrow> KycWorld \<Rightarrow> bool \<times> KycWorld" where
  "checkSanctionsList env name w = (let (x, w') = mathRandom env w in (x < fl 0.01, w'))"

text \<open>\<^verbatim>\<open>result.riskFactors.push(reason)\<close>.\<close>

definition pushRiskFactor :: "string \<Rightarrow> KYCResult \<Rightarrow> KYCResult" where
  "pushRiskFactor reason result = result\<lparr>riskFactors := riskFactors result @ [reason]\<rparr>"

text \<open>
  The body of the loop of \<^verbatim>\<open>extractPersonalInfo\<close> for one entry;
  \<^verbatim>\<open>parseDate\<close> does not fail and its date is kept as the string.
\<close>

definition extractEntry :: "KYCResult \<Rightarrow> string \<times> string \<Rightarrow> KYCResult" where
  "extractEntry result entry =
     (let pattern = fst entry; v = snd entry in
      if str_includes pattern ''NAME'' then
        result\<lparr>extractedData := (extractedData result)\<lparr>fullName := Some v\<rparr>\<rparr>
      else if str_includes pattern ''DOB'' then
        result\<lparr>extractedData := (extractedData result)\<lparr>dateOfBirth := Some v\<rparr>\<rparr>
      else if str_includes pattern ''NUMBER'' then
        result\<lparr>extractedData := (extractedData result)\<lparr>documentNumber := Some v\<rparr>\<rparr>
      else result)"

definition extractPersonalInfo :: "(string \<times> string) list \<Rightarrow> KYCResult \<Rightarrow> KYCResult" where
  "extractPersonalInfo extracted result = foldl extractEntry result extracted"

text \<open>
  The steps below mutate the shared \<^verbatim>\<open>result\<close> object and may throw: they return
  the exception, if any, together with the result and the world as they are at that
  moment.
\<close>

definition performDocumentChecks ::
    "KycEnv \<Rightarrow> Document \<Rightarrow> KYCResult \<Rightarrow> KycWorld \<Rightarrow> error option \<times> KYCResult \<times> KycWorld" where
  "performDocumentChecks env document result w =
     (case document_findFirstSelfie env (doc_orderId document) of
        Inl e \<Rightarrow> (Some e, result, w)
      | Inr selfieDoc \<Rightarrow>
          let (result1, w1) =
                (case selfieDoc of
                   None \<Rightarrow> (result, w)
                 | Some selfie \<Rightarrow>
                     let (fm, wa) = performFaceMatch env w;
                         ra = result\<lparr>checks := (checks result)\<lparr>faceMatch := fm\<rparr>\<rparr>;
                         (lv, wb) = performLivenessCheck env wa;
                         rb = ra\<lparr>checks := (checks ra)\<lparr>livenessCheck := lv\<rparr>\<rparr>
                     in (rb, wb));
              (av, w2) = verifyAddress env (address (extractedData result1)) w1
          in (None, result1\<lparr>checks := (checks result1)\<lparr>addressVerification := av\<rparr>\<rparr>, w2))"

definition processIdentityDocument ::
    "KycEnv \<Rightarrow> string \<Rightarrow> KYCResult \<Rightarrow> KycWorld \<Rightarrow> error option \<times> KYCResult \<times> KycWorld" where
  "processIdentityDocument env documentId result w =
     (case document_findUnique env documentId of
        Inl e \<Rightarrow> (Some e, result, w)
      | Inr None \<Rightarrow> (None, pushRiskFactor ''Document OCR failed'' result, w)
      | Inr (Some document) \<Rightarrow>
          if \<not> truthyString (ocrText document) then
            (None, pushRiskFactor ''Document OCR failed'' result, w)
          else
            let extracted = extractPatterns env (the (ocrText document)) (fileType document);
                (isValid, w1) = validateDocument env w;
                result1 = result\<lparr>checks := (checks result)\<lparr>documentValid := isValid\<rparr>\<rparr>
            in if isValid then
                 performDocumentChecks env document (extractPersonalInfo extracted result1) w1
               else (None, pushRiskFactor ''Document validation failed'' result1, w1))"

text \<open>The loop \<^verbatim>\<open>for (const document of idDocuments)\<close>: it stops at an exception.\<close>

fun processDocuments ::
    "KycEnv \<Rightarrow> Document list \<Rightarrow> KYCResult \<Rightarrow> KycWorld \<Rightarrow> error option \<times> KYCResult \<times> KycWorld" where
  "processDocuments env [] result w = (None, result, w)"
| "processDocuments env (document # rest) result w =
     (case processIdentityDocument env (doc_id document) result w of
        (Some e, result', w') \<Rightarrow> (Some e, result', w')
      | (None, result', w') \<Rightarrow> processDocuments env rest result' w')"

definition performSanctionsCheck :: "KycEnv \<Rightarrow> KYCResult \<Rightarrow> KycWorld \<Rightarrow> KYCResult \<times> KycWorld" where
  "performSanctionsCheck env result w =
     (if \<not> truthyString (fullName (extractedData result)) then
        (pushRiskFactor ''No name available for sanctions check'' result, w)
      else
        let (isSanctioned, w1) = checkSanctionsList env (the (fullName (extractedData result))) w;
            result1 = result\<lparr>checks := (checks result)\<lparr>sanctionsCheck := \<not> isSanctioned\<rparr>\<rparr>
        in if isSanctioned then (pushRiskFactor ''Name found on sanctions list'' result1, w1)
           else (result1, w1))"

text \<open>\<^verbatim>\<open>prisma.kycVerification.create\<close>: the row is appended unless the call rejects.\<close>

definition kycVerification_create ::
    "KycEnv \<Rightarrow> KycVerificationRow \<Rightarrow> KycWorld \<Rightarrow> error option \<times> KycWorld" where
  "kycVerification_create env row w =
     (case createRejects env (kycVerifications w) row of
        Some e \<Rightarrow> (Some e, w)
      | None \<Rightarrow> (None, w\<lparr>kycVerifications := kycVerifications w @ [row]\<rparr>))"

text \<open>The object that \<^verbatim>\<open>verifyIdentity\<close> starts from.\<close>

definition initialResult :: KYCResult where
  "initialResult =
     \<lparr>status = REQUIRES_REVIEW, kyc_score = 0,
      checks = \<lparr>documentValid = False, faceMatch = False, livenessCheck = False,
                sanctionsCheck = False, addressVerification = False\<rparr>,
      extractedData = \<lparr>fullName = None, dateOfBirth = None, documentNumber = None,
                       address = None\<rparr>,
      riskFactors = [], recommendations = []\<rparr>"

text \<open>The body of the \<^verbatim>\<open>try\<close> block.\<close>

definition tryBody ::
    "KycEnv \<Rightarrow> string \<Rightarrow> Document list \<Rightarrow> KYCResult \<Rightarrow> KycWorld
       \<Rightarrow> error option \<times> KYCResult \<times> KycWorld" where
  "tryBody env orderId idDocuments result w =
     (case processDocuments env idDocuments result w of
        (Some e, r1, w1) \<Rightarrow> (Some e, r1, w1)
      | (None, r1, w1) \<Rightarrow>
          let (r2, w2) = performSanctionsCheck env r1 w1;
              r3 = r2\<lparr>kyc_score := calculateKYCScore r2\<rparr>;
              r4 = r3\<lparr>status := determineKYCStatus r3\<rparr>;
              row = \<lparr>kv_orderId = orderId, kv_status = status r4,
                     kv_verificationData = r4, kv_riskScore = kyc_score r4\<rparr>;
              (failure, w3) = kycVerification_create env row w2
          in (failure, r4, w3))"

definition identityDocumentTypes :: "string list" where
  "identityDocumentTypes = [''ID_CARD'', ''PASSPORT'', ''DRIVERS_LICENSE'']"

definition verifyIdentity ::
    "KycEnv \<Rightarrow> KycWorld \<Rightarrow> string \<Rightarrow> (error + KYCResult) \<times> KycWorld" where
  "verifyIdentity env w orderId =
     (case order_findUnique env orderId of
        Inl e \<Rightarrow> (Inl e, w)
      | Inr None \<Rightarrow> (Inl (Error ''Order not found''), w)
      | Inr (Some order) \<Rightarrow>
          let idDocuments =
                filter (\<lambda>doc. fileType doc \<in> set identityDocumentTypes) (documents order)
          in if length idDocuments = 0 then (Inl (Error ''No identity documents found''), w)
             else
               (case tryBody env orderId idDocuments initialResult w of
                  (None, result, w') \<Rightarrow> (Inr result, w')
                | (Some e, result, w') \<Rightarrow>
                    (Inr (pushRiskFactor ''Verification process failed''
                            (result\<lparr>status := REJECTED\<rparr>)), w')))"

text \<open>
  The \<^verbatim>\<open>try\<close> block of \<^verbatim>\<open>verifyIdentity\<close> is entered and runs to its end without
  an exception.
\<close>

definition pipelineCompletes :: "KycEnv \<Rightarrow> KycWorld \<Rightarrow> string \<Rightarrow> bool" where
  "pipelineCompletes env w orderId =
     (case order_findUnique env orderId of
        Inl e \<Rightarrow> False
      | Inr None \<Rightarrow> False
      | Inr (Some order) \<Rightarrow>
          let idDocuments =
                filter (\<lambda>doc. fileType doc \<in> set identityDocumentTypes) (documents order)
          in length idDocuments \<noteq> 0 \<and>
             fst (tryBody env orderId idDocuments initialResult w) = None)"

section \<open>Concrete inputs\<close>












text \<open>The factor list of an order whose only finding is excessive messaging.\<close>

definition excessiveMessagingOnly :: "RiskFactor list" where
  "excessiveMessagingOnly =
     [\<lparr>ftype = ''EXCESSIVE_MESSAGING'', severity = LOW, score = fl 0.2,
        description = ''Unusually high number of messages''\<rparr>]"

text \<open>
  A KYC result before scoring in which the document, liveness and sanctions checks have
  passed and four risk reasons have accumulated.
\<close>

definition fourReasons :: KYCResult where
  "fourReasons =
     \<lparr>status = REQUIRES_REVIEW, kyc_score = 0,
      checks = \<lparr>documentValid = True, faceMatch = False, livenessCheck = True,
                sanctionsCheck = True, addressVerification = False\<rparr>,
      extractedData = \<lparr>fullName = Some ''A B'', dateOfBirth = None, documentNumber = None,
                       address = None\<rparr>,
      riskFactors = [''Document OCR failed'', ''Document OCR failed'',
                     ''Document OCR failed'', ''Document validation failed''],
      recommendations = []\<rparr>"

text \<open>
  An order whose only chat message was not written by the counterparty
  (\<^verbatim>\<open>isFromUser\<close> is the stored \<^verbatim>\<open>isFromCounterparty\<close> flag).
\<close>

definition operatorOnlyOrder :: P2POrder where
  "operatorOnlyOrder =
     \<lparr>order_id = ''order-2'', amount = 100, paymentMethod = ''BANK_TRANSFER'',
      counterpartyId = ''cp-2'', order_status = ''PENDING'', createdAt = 1700000000000,
      documents = [],
      chatMessages = [\<lparr>content = ''Hello, please send the payment'', isFromUser = False\<rparr>],
      kycVerification = None\<rparr>"

text \<open>An order whose stored KYC record is approved with the risk score 0.\<close>

definition zeroScoreKycOrder :: P2POrder where
  "zeroScoreKycOrder =
     \<lparr>order_id = ''order-3'', amount = 100, paymentMethod = ''BANK_TRANSFER'',
      counterpartyId = ''cp-3'', order_status = ''PENDING'', createdAt = 1700000000000,
      documents = [], chatMessages = [],
      kycVerification = Some \<lparr>kyc_status = ''APPROVED'', riskScore = Some 0\<rparr>\<rparr>"

text \<open>
  Inputs of the KYC service: an order with an identity card, whose OCR text yields no
  field, and a selfie; an order with a selfie only; an environment in which every random
  draw is 0.5 and no database call rejects; a world with an empty verification table.
\<close>

definition noNameDocument :: Document where
  "noNameDocument =
     \<lparr>doc_id = ''doc-4'', doc_orderId = ''order-4'', fileType = ''ID_CARD'',
      ocrText = Some ''REPUBLIC IDENTITY CARD'', ocrConfidence = Some 0.9,
      doc_status = ''PROCESSED''\<rparr>"

definition selfieDocument :: Document where
  "selfieDocument =
     \<lparr>doc_id = ''doc-5'', doc_orderId = ''order-4'', fileType = ''SELFIE'',
      ocrText = None, ocrConfidence = None, doc_status = ''PROCESSED''\<rparr>"

definition noNameOrder :: P2POrder where
  "noNameOrder =
     \<lparr>order_id = ''order-4'', amount = 100, paymentMethod = ''BANK_TRANSFER'',
      counterpartyId = ''cp-4'', order_status = ''PENDING'', createdAt = 1700000000000,
      documents = [noNameDocument, selfieDocument], chatMessages = [],
      kycVerification = None\<rparr>"

definition selfieOnlyOrder :: P2POrder where
  "selfieOnlyOrder =
     \<lparr>order_id = ''order-5'', amount = 100, paymentMethod = ''BANK_TRANSFER'',
      counterpartyId = ''cp-5'', order_status = ''PENDING'', createdAt = 1700000000000,
      documents = [selfieDocument], chatMessages = [], kycVerification = None\<rparr>"

definition kycEnv :: KycEnv where
  "kycEnv =
     \<lparr>random = (\<lambda>n. 0.5),
      order_findUnique =
        (\<lambda>i. if i = ''order-4'' then Inr (Some noNameOrder)
              else if i = ''order-5'' then Inr (Some selfieOnlyOrder)
              else Inr None),
      document_findUnique = (\<lambda>i. if i = ''doc-4'' then Inr (Some noNameDocument) else Inr None),
      document_findFirstSelfie = (\<lambda>i. Inr (Some selfieDocument)),
      extractPatterns = (\<lambda>text documentType. []),
      createRejects = (\<lambda>table row. None)\<rparr>"

definition emptyWorld :: KycWorld where
  "emptyWorld = \<lparr>kycVerifications = [], randomCalls = 0\<rparr>"

definition noNameResult :: KYCResult where
  "noNameResult =
     \<lparr>status = REJECTED, kyc_score = fl 0.55,
      checks = \<lparr>documentValid = True, faceMatch = True, livenessCheck = True,
                sanctionsCheck = False, addressVerification = False\<rparr>,
      extractedData = \<lparr>fullName = None, dateOfBirth = None, documentNumber = None,
                       address = None\<rparr>,
      riskFactors = [''No name available for sanctions check''], recommendations = []\<rparr>"

section \<open>Properties of the rounding\<close>

text \<open>
  The recursive equations of the exponent search are unfolded by hand only.
\<close>

declare expUp.simps [simp del] expDown.simps [simp del]

lemma pow2_powi: "pow2 e = 2 powi e"
  by (simp add: pow2_def power_int_def field_simps)

lemma pow2_pos: "0 < pow2 e"
  by (simp add: pow2_powi)

lemma pow2_add: "pow2 (a + b) = pow2 a * pow2 b"
  by (simp add: pow2_powi power_int_add)

lemma pow2_1: "pow2 1 = 2"
  by (simp add: pow2_def)

lemma pow2_Suc: "pow2 (e + 1) = 2 * pow2 e"
  by (simp add: pow2_add pow2_1)

lemma pow2_mono: "a \<le> b \<Longrightarrow> pow2 a \<le> pow2 b"
  by (simp add: pow2_powi power_int_increasing)

lemma expUp_spec:
  "1 \<le> x \<Longrightarrow> e0 \<le> 1023 \<Longrightarrow>
     e0 \<le> expUp x e0 \<and> expUp x e0 \<le> 1023 \<and> pow2 (expUp x e0 - e0) \<le> x \<and>
     (expUp x e0 < 1023 \<longrightarrow> x < pow2 (expUp x e0 - e0 + 1))"
proof (induction x e0 rule: expUp.induct)
  case (1 x e)
  show ?case
  proof (cases "2 \<le> x \<and> e < 1023")
    case True
    then have eq: "expUp x e = expUp (x / 2) (e + 1)" by (subst expUp.simps) simp
    from True have "1 \<le> x / 2" "e + 1 \<le> 1023" by simp_all
    from "1.IH" [OF True this]
    have ih: "e + 1 \<le> expUp x e" "expUp x e \<le> 1023"
      "pow2 (expUp x e - (e + 1)) \<le> x / 2"
      "expUp x e < 1023 \<longrightarrow> x / 2 < pow2 (expUp x e - (e + 1) + 1)"
      unfolding eq by simp_all
    have s: "pow2 (expUp x e - e) = 2 * pow2 (expUp x e - (e + 1))"
      using pow2_Suc [of "expUp x e - (e + 1)"] by (simp add: algebra_simps)
    have s': "pow2 (expUp x e - e + 1) = 2 * pow2 (expUp x e - (e + 1) + 1)"
      using pow2_Suc [of "expUp x e - (e + 1) + 1"] by (simp add: algebra_simps)
    from ih show ?thesis unfolding s s' by auto
  next
    case False
    then have eq: "expUp x e = e" by (subst expUp.simps) (simp only: if_False)
    from False "1.prems" have "e < 1023 \<longrightarrow> x < 2" by auto
    with "1.prems" show ?thesis unfolding eq by (simp add: pow2_1) (simp add: pow2_def)
  qed
qed

lemma expDown_spec:
  "0 < x \<Longrightarrow> x < 2 \<Longrightarrow> - 1022 \<le> e0 \<Longrightarrow>
     - 1022 \<le> expDown x e0 \<and> expDown x e0 \<le> e0 \<and> x < pow2 (expDown x e0 - e0 + 1) \<and>
     (- 1022 < expDown x e0 \<longrightarrow> pow2 (expDown x e0 - e0) \<le> x)"
proof (induction x e0 rule: expDown.induct)
  case (1 x e)
  show ?case
  proof (cases "x < 1 \<and> - 1022 < e")
    case True
    then have eq: "expDown x e = expDown (2 * x) (e - 1)" by (subst expDown.simps) simp
    from True "1.prems" have "0 < 2 * x" "2 * x < 2" "- 1022 \<le> e - 1" by simp_all
    from "1.IH" [OF True this]
    have ih: "- 1022 \<le> expDown x e" "expDown x e \<le> e - 1"
      "2 * x < pow2 (expDown x e - (e - 1) + 1)"
      "- 1022 < expDown x e \<longrightarrow> pow2 (expDown x e - (e - 1)) \<le> 2 * x"
      unfolding eq by simp_all
    have s: "pow2 (expDown x e - (e - 1)) = 2 * pow2 (expDown x e - e)"
      using pow2_Suc [of "expDown x e - e"] by (simp add: algebra_simps)
    have s': "pow2 (expDown x e - (e - 1) + 1) = 2 * pow2 (expDown x e - e + 1)"
      using pow2_Suc [of "expDown x e - e + 1"] by (simp add: algebra_simps)
    from ih show ?thesis unfolding s s' by auto
  next
    case False
    then have eq: "expDown x e = e" by (subst expDown.simps) (simp only: if_False)
    from False "1.prems" have "- 1022 < e \<longrightarrow> 1 \<le> x" by auto
    with "1.prems" show ?thesis unfolding eq by (simp add: pow2_1) (simp add: pow2_def)
  qed
qed

lemma binade_spec:
  assumes "0 < a"
  shows "- 1022 \<le> binade a" and "binade a \<le> 1023"
    and "- 1022 < binade a \<Longrightarrow> pow2 (binade a) \<le> a"
    and "binade a < 1023 \<Longrightarrow> a < pow2 (binade a + 1)"
proof -
  show "- 1022 \<le> binade a"
    using expUp_spec [of a 0] expDown_spec [of a 0] assms by (auto simp: binade_def)
  show "binade a \<le> 1023"
    using expUp_spec [of a 0] expDown_spec [of a 0] assms by (auto simp: binade_def)
  show "pow2 (binade a) \<le> a" if "- 1022 < binade a"
    using expUp_spec [of a 0] expDown_spec [of a 0] assms that by (auto simp: binade_def)
  show "a < pow2 (binade a + 1)" if "binade a < 1023"
    using expUp_spec [of a 0] expDown_spec [of a 0] assms that by (auto simp: binade_def)
qed

lemma binade_mono:
  assumes "0 < a" and "a \<le> b"
  shows "binade a \<le> binade b"
proof (rule ccontr)
  assume "\<not> binade a \<le> binade b"
  then have lt: "binade b < binade a" by simp
  from assms have b: "0 < b" by simp
  have "- 1022 < binade a" using lt binade_spec(1) [OF b] by linarith
  then have lo: "pow2 (binade a) \<le> a" by (rule binade_spec(3) [OF assms(1)])
  have "binade b < 1023" using lt binade_spec(2) [OF assms(1)] by linarith
  then have "b < pow2 (binade b + 1)" by (rule binade_spec(4) [OF b])
  also have "pow2 (binade b + 1) \<le> pow2 (binade a)" using lt by (intro pow2_mono) simp
  finally show False using lo assms(2) by simp
qed

lemma roundEven_bounds: "\<lfloor>y\<rfloor> \<le> roundEven y \<and> roundEven y \<le> \<lfloor>y\<rfloor> + 1"
  by (simp add: roundEven_def Let_def)

lemma roundEven_of_int [simp]: "roundEven (of_int n) = n"
  by (simp add: roundEven_def)

lemma roundEven_mono:
  assumes "y1 \<le> y2"
  shows "roundEven y1 \<le> roundEven y2"
proof (cases "\<lfloor>y1\<rfloor> = \<lfloor>y2\<rfloor>")
  case True
  with assms have "y1 - of_int \<lfloor>y1\<rfloor> \<le> y2 - of_int \<lfloor>y2\<rfloor>" by simp
  with True show ?thesis by (auto simp: roundEven_def Let_def)
next
  case False
  with assms have "\<lfloor>y1\<rfloor> < \<lfloor>y2\<rfloor>" using floor_mono [OF assms] by linarith
  with roundEven_bounds [of y1] roundEven_bounds [of y2] show ?thesis by linarith
qed

lemma roundEven_le: "y \<le> of_int n \<Longrightarrow> roundEven y \<le> n"
  using roundEven_mono [of y "of_int n"] by simp

lemma roundEven_ge: "of_int n \<le> y \<Longrightarrow> n \<le> roundEven y"
  using roundEven_mono [of "of_int n" y] by simp

definition flPos :: "real \<Rightarrow> real" where
  "flPos a = of_int (roundEven (a / pow2 (binade a - 52))) * pow2 (binade a - 52)"

lemma fl_flPos: "fl x = (if x = 0 then 0 else if x < 0 then - flPos (- x) else flPos x)"
  by (simp add: fl_def flPos_def Let_def)

lemma flPos_nonneg: "0 < a \<Longrightarrow> 0 \<le> flPos a"
proof -
  assume "0 < a"
  then have "of_int 0 \<le> a / pow2 (binade a - 52)" using pow2_pos [of "binade a - 52"] by simp
  then have "0 \<le> roundEven (a / pow2 (binade a - 52))" by (rule roundEven_ge)
  then show ?thesis using pow2_pos [of "binade a - 52"] by (simp add: flPos_def)
qed

lemma flPos_upper:
  assumes "0 < a" and "binade a < 1023"
  shows "flPos a \<le> pow2 (binade a + 1)"
proof -
  let ?q = "pow2 (binade a - 52)"
  have q: "0 < ?q" by (rule pow2_pos)
  have "pow2 (binade a + 1) = pow2 (53 + (binade a - 52))" by (simp add: algebra_simps)
  also have "\<dots> = pow2 53 * ?q" by (rule pow2_add)
  also have "pow2 53 = 2 ^ 53" by (simp add: pow2_def)
  finally have split: "pow2 (binade a + 1) = 2 ^ 53 * ?q" .
  have "a < pow2 (binade a + 1)" by (rule binade_spec(4) [OF assms])
  then have "a < 2 ^ 53 * ?q" by (simp only: split)
  then have "a / ?q \<le> of_int (2 ^ 53)" using q by (simp add: field_simps)
  then have "roundEven (a / ?q) \<le> 2 ^ 53" by (rule roundEven_le)
  then have "of_int (roundEven (a / ?q)) \<le> (2 ^ 53 :: real)"
    by (metis of_int_le_iff of_int_numeral of_int_power)
  then have "flPos a \<le> 2 ^ 53 * ?q" using q by (simp add: flPos_def)
  then show ?thesis by (simp only: split)
qed

lemma flPos_lower:
  assumes "0 < a" and "- 1022 < binade a"
  shows "pow2 (binade a) \<le> flPos a"
proof -
  let ?q = "pow2 (binade a - 52)"
  have q: "0 < ?q" by (rule pow2_pos)
  have "pow2 (binade a) = pow2 (52 + (binade a - 52))" by (simp add: algebra_simps)
  also have "\<dots> = pow2 52 * ?q" by (rule pow2_add)
  also have "pow2 52 = 2 ^ 52" by (simp add: pow2_def)
  finally have split: "pow2 (binade a) = 2 ^ 52 * ?q" .
  have "pow2 (binade a) \<le> a" by (rule binade_spec(3) [OF assms])
  then have "2 ^ 52 * ?q \<le> a" by (simp only: split)
  then have "of_int (2 ^ 52) \<le> a / ?q" using q by (simp add: field_simps)
  then have "2 ^ 52 \<le> roundEven (a / ?q)" by (rule roundEven_ge)
  then have "(2 ^ 52 :: real) \<le> of_int (roundEven (a / ?q))"
    by (metis of_int_le_iff of_int_numeral of_int_power)
  then have "2 ^ 52 * ?q \<le> flPos a" using q by (simp add: flPos_def)
  then show ?thesis by (simp only: split)
qed

lemma flPos_mono:
  assumes "0 < a" and "a \<le> b"
  shows "flPos a \<le> flPos b"
proof -
  from assms have b: "0 < b" by simp
  have le: "binade a \<le> binade b" by (rule binade_mono [OF assms])
  show ?thesis
  proof (cases "binade a = binade b")
    case True
    let ?q = "pow2 (binade b - 52)"
    have q: "0 < ?q" by (rule pow2_pos)
    from assms(2) q have "a / ?q \<le> b / ?q" by (simp add: divide_right_mono)
    then have "roundEven (a / ?q) \<le> roundEven (b / ?q)" by (rule roundEven_mono)
    then have "(of_int (roundEven (a / ?q)) :: real) \<le> of_int (roundEven (b / ?q))" by simp
    then show ?thesis using q True by (simp add: flPos_def)
  next
    case False
    with le have lt: "binade a < binade b" by simp
    have "binade a < 1023" using lt binade_spec(2) [OF b] by linarith
    then have "flPos a \<le> pow2 (binade a + 1)" by (rule flPos_upper [OF assms(1)])
    also have "pow2 (binade a + 1) \<le> pow2 (binade b)" using lt by (intro pow2_mono) simp
    also have "pow2 (binade b) \<le> flPos b"
      using lt binade_spec(1) [OF assms(1)] by (intro flPos_lower [OF b]) linarith
    finally show ?thesis .
  qed
qed

lemma fl_nonneg: "0 \<le> x \<Longrightarrow> 0 \<le> fl x"
  using flPos_nonneg [of x] by (simp add: fl_flPos)

lemma fl_nonpos: "x \<le> 0 \<Longrightarrow> fl x \<le> 0"
  using flPos_nonneg [of "- x"] by (simp add: fl_flPos)

lemma fl_mono:
  assumes "x \<le> y"
  shows "fl x \<le> fl y"
proof -
  consider "0 < x" | "y < 0" | "x \<le> 0" "0 \<le> y" by linarith
  then show ?thesis
  proof cases
    case 1
    with assms flPos_mono [of x y] show ?thesis by (simp add: fl_flPos)
  next
    case 2
    with assms flPos_mono [of "- y" "- x"] show ?thesis by (simp add: fl_flPos)
  next
    case 3
    with fl_nonneg [of y] fl_nonpos [of x] show ?thesis by linarith
  qed
qed

lemma fl_0 [simp]: "fl 0 = 0"
  by (simp add: fl_def)

lemma fl_1 [simp]: "fl 1 = 1"
  by code_simp


text \<open>
  The rounded value is a nearest one: it differs from the exact value by at most half the
  spacing of the values around it.
\<close>

lemma roundEven_error: "\<bar>of_int (roundEven y) - y\<bar> \<le> 1 / 2"
proof -
  have "of_int \<lfloor>y\<rfloor> \<le> y" and "y < of_int \<lfloor>y\<rfloor> + 1" by linarith+
  then show ?thesis by (auto simp: roundEven_def Let_def)
qed

lemma flPos_error:
  assumes "0 < a"
  shows "\<bar>flPos a - a\<bar> \<le> pow2 (binade a - 52) / 2"
proof -
  let ?q = "pow2 (binade a - 52)"
  have q: "0 < ?q" by (rule pow2_pos)
  have "flPos a - a = (of_int (roundEven (a / ?q)) - a / ?q) * ?q"
    using q by (simp add: flPos_def field_simps)
  then have "\<bar>flPos a - a\<bar> = \<bar>of_int (roundEven (a / ?q)) - a / ?q\<bar> * ?q"
    using q by (simp add: abs_mult)
  also have "\<dots> \<le> 1 / 2 * ?q"
    using roundEven_error [of "a / ?q"] q by (intro mult_right_mono) simp_all
  finally show ?thesis by simp
qed

text \<open>
  A value on the grid of its binade is kept, so the rounding is idempotent: the result of
  every operation is a value of the format.
\<close>

lemma binade_unique:
  assumes "0 < a" and "- 1022 \<le> e" and "e \<le> 1023"
    and "- 1022 < e \<Longrightarrow> pow2 e \<le> a" and "e < 1023 \<Longrightarrow> a < pow2 (e + 1)"
  shows "binade a = e"
proof (rule ccontr)
  assume ne: "binade a \<noteq> e"
  show False
  proof (cases "binade a < e")
    case True
    then have "- 1022 < e" using binade_spec(1) [OF assms(1)] by linarith
    then have lo: "pow2 e \<le> a" by (rule assms(4))
    from True assms(3) have "binade a < 1023" by linarith
    then have "a < pow2 (binade a + 1)" by (rule binade_spec(4) [OF assms(1)])
    also have "pow2 (binade a + 1) \<le> pow2 e" using True by (intro pow2_mono) simp
    finally show False using lo by simp
  next
    case False
    with ne have gt: "e < binade a" by simp
    then have "- 1022 < binade a" using assms(2) by linarith
    then have lo: "pow2 (binade a) \<le> a" by (rule binade_spec(3) [OF assms(1)])
    from gt binade_spec(2) [OF assms(1)] have "e < 1023" by linarith
    then have "a < pow2 (e + 1)" by (rule assms(5))
    also have "pow2 (e + 1) \<le> pow2 (binade a)" using gt by (intro pow2_mono) simp
    finally show False using lo by simp
  qed
qed

lemma pow2_split52: "pow2 e = 2 ^ 52 * pow2 (e - 52)"
proof -
  have "pow2 e = pow2 (52 + (e - 52))" by (simp add: algebra_simps)
  also have "\<dots> = pow2 52 * pow2 (e - 52)" by (rule pow2_add)
  also have "pow2 52 = 2 ^ 52" by (simp add: pow2_def)
  finally show ?thesis .
qed

lemma flPos_grid:
  assumes "0 < m" and "- 1022 \<le> e" and "e \<le> 1023"
    and "- 1022 < e \<Longrightarrow> 2 ^ 52 \<le> m" and "e < 1023 \<Longrightarrow> m < 2 ^ 53"
  shows "flPos (of_int m * pow2 (e - 52)) = of_int m * pow2 (e - 52)"
proof -
  let ?q = "pow2 (e - 52)"
  let ?v = "of_int m * ?q"
  have q: "0 < ?q" by (rule pow2_pos)
  have v: "0 < ?v" using assms(1) q by simp
  have "binade ?v = e"
  proof (rule binade_unique [OF v assms(2,3)])
    assume "- 1022 < e"
    then have "2 ^ 52 \<le> m" by (rule assms(4))
    then have "(2 ^ 52 :: real) \<le> of_int m"
      by (metis of_int_le_iff of_int_numeral of_int_power)
    then have "2 ^ 52 * ?q \<le> ?v" using q by simp
    then show "pow2 e \<le> ?v" by (simp only: pow2_split52 [of e])
  next
    assume "e < 1023"
    then have "m < 2 ^ 53" by (rule assms(5))
    then have "of_int m < (2 ^ 53 :: real)"
      by (metis of_int_less_iff of_int_numeral of_int_power)
    then have "?v < 2 ^ 53 * ?q" using q by simp
    also have "2 ^ 53 * ?q = 2 * (2 ^ 52 * ?q)" by simp
    also have "\<dots> = 2 * pow2 e" by (simp only: pow2_split52 [of e])
    also have "\<dots> = pow2 (e + 1)" by (simp only: pow2_Suc)
    finally show "?v < pow2 (e + 1)" .
  qed
  then have "flPos ?v = of_int (roundEven (?v / ?q)) * ?q" by (simp add: flPos_def)
  also have "?v / ?q = of_int m" using q by simp
  finally show ?thesis by simp
qed

lemma flPos_idem:
  assumes "0 < a" and "0 < flPos a"
  shows "flPos (flPos a) = flPos a"
proof -
  define e where "e = binade a"
  define m where "m = roundEven (a / pow2 (e - 52))"
  let ?q = "pow2 (e - 52)"
  have q: "0 < ?q" by (rule pow2_pos)
  have v: "flPos a = of_int m * ?q" by (simp add: flPos_def e_def m_def)
  from assms(2) q have m0: "0 < m" by (simp add: v zero_less_mult_iff)
  have er: "- 1022 \<le> e" "e \<le> 1023" using binade_spec(1,2) [OF assms(1)] by (simp_all add: e_def)
  have lo: "2 ^ 52 \<le> m" if "- 1022 < e"
  proof -
    from that have "pow2 e \<le> a" using binade_spec(3) [OF assms(1)] by (simp add: e_def)
    then have "2 ^ 52 * ?q \<le> a" by (simp only: pow2_split52 [of e])
    then have "of_int (2 ^ 52) \<le> a / ?q" using q by (simp add: field_simps)
    then show ?thesis unfolding m_def by (rule roundEven_ge)
  qed
  have hi: "m \<le> 2 ^ 53" if "e < 1023"
  proof -
    from that have "a < pow2 (e + 1)" using binade_spec(4) [OF assms(1)] by (simp add: e_def)
    also have "pow2 (e + 1) = 2 * pow2 e" by (rule pow2_Suc)
    also have "\<dots> = 2 * (2 ^ 52 * ?q)" by (simp only: pow2_split52 [of e])
    finally have "a / ?q \<le> of_int (2 ^ 53)" using q by (simp add: field_simps)
    then show ?thesis unfolding m_def by (rule roundEven_le)
  qed
  show ?thesis
  proof (cases "e < 1023 \<and> m = 2 ^ 53")
    case False
    have "flPos (of_int m * ?q) = of_int m * ?q"
    proof (rule flPos_grid [OF m0 er])
      assume "- 1022 < e" then show "2 ^ 52 \<le> m" by (rule lo)
    next
      assume "e < 1023" with hi False show "m < 2 ^ 53" by auto
    qed
    then show ?thesis by (simp only: v)
  next
    case True
    then have e1: "- 1022 \<le> e + 1" "e + 1 \<le> 1023" using er by simp_all
    have "pow2 (e + 1 - 52) = 2 * ?q" using pow2_Suc [of "e - 52"] by (simp add: algebra_simps)
    then have eq: "of_int m * ?q = of_int (2 ^ 52) * pow2 (e + 1 - 52)" using True by simp
    have "flPos (of_int (2 ^ 52) * pow2 (e + 1 - 52)) = of_int (2 ^ 52) * pow2 (e + 1 - 52)"
      by (rule flPos_grid [OF _ e1]) simp_all
    then show ?thesis by (simp only: v eq)
  qed
qed

lemma fl_idem: "fl (fl x) = fl x"
proof -
  consider "x = 0" | "0 < x" | "x < 0" by linarith
  then show ?thesis
  proof cases
    case 1
    then show ?thesis by simp
  next
    case 2
    then have f: "fl x = flPos x" by (simp add: fl_flPos)
    show ?thesis
    proof (cases "flPos x = 0")
      case True
      with f show ?thesis by simp
    next
      case False
      with flPos_nonneg [OF 2] have p: "0 < flPos x" by simp
      from p have "fl (flPos x) = flPos (flPos x)" by (simp add: fl_flPos)
      with flPos_idem [OF 2 p] show ?thesis by (simp only: f)
    qed
  next
    case 3
    then have f: "fl x = - flPos (- x)" by (simp add: fl_flPos)
    from 3 have n: "0 < - x" by simp
    show ?thesis
    proof (cases "flPos (- x) = 0")
      case True
      with f show ?thesis by simp
    next
      case False
      with flPos_nonneg [OF n] have p: "0 < flPos (- x)" by simp
      from p have "fl (- flPos (- x)) = - flPos (flPos (- x))" by (simp add: fl_flPos)
      with flPos_idem [OF n p] show ?thesis by (simp only: f)
    qed
  qed
qed


text \<open>
  The weights and thresholds are positive and in the order of their decimal literals.
\<close>

lemma fl_weights_order:
  "0 < fl 0.1" "fl 0.1 \<le> fl 0.3" "fl 0.3 \<le> fl 0.6" "fl 0.6 \<le> fl 1.0" "fl 1.0 = 1"
  by code_simp+

lemma fl_thresholds_order:
  "0 < fl 0.2" "fl 0.2 < fl 0.3" "fl 0.3 < fl 0.5" "fl 0.5 < fl 0.6" "fl 0.6 < fl 0.7"
  "fl 0.7 < fl 0.8" "fl 0.8 < fl 0.9" "fl 0.9 < 1"
  by code_simp+

section \<open>Properties of the aggregator and the policy\<close>

lemma filter_nonempty_iff: "(length (filter P xs) > 0) = (\<exists>x\<in>set xs. P x)"
  by (induction xs) auto

lemma weights_fixed: "fl (weights sv) = weights sv"
  by (cases sv) (simp_all add: fl_idem)

lemma weights_lower: "fl 0.1 \<le> weights sv"
  using fl_weights_order by (cases sv) simp_all

lemma weights_pos: "0 < weights sv"
  using weights_lower [of sv] fl_weights_order(1) by linarith

text \<open>The loop keeps two independent running sums.\<close>

lemma foldl_accumulate:
  "foldl accumulate (a, b) fs =
     (foldl (\<lambda>t f. addD t (mulD (score f) (weights (severity f)))) a fs,
      foldl (\<lambda>t f. addD t (weights (severity f))) b fs)"
  by (induction fs arbitrary: a b) (simp_all add: accumulate_def Let_def)

lemma total_weight_step: "0 \<le> b \<Longrightarrow> fl 0.1 \<le> addD b (weights sv)"
proof -
  assume "0 \<le> b"
  then have "weights sv \<le> b + weights sv" by simp
  then have "fl (weights sv) \<le> fl (b + weights sv)" by (rule fl_mono)
  with weights_lower [of sv] show ?thesis by (simp add: addD_def weights_fixed)
qed

lemma total_weight_lower:
  "fl 0.1 \<le> b \<Longrightarrow> fl 0.1 \<le> foldl (\<lambda>t f. addD t (weights (severity f))) b fs"
proof (induction fs arbitrary: b)
  case Nil
  then show ?case by simp
next
  case (Cons f fs)
  from Cons.prems fl_weights_order(1) have "0 \<le> b" by linarith
  then have "fl 0.1 \<le> addD b (weights (severity f))" by (rule total_weight_step)
  from Cons.IH [OF this] show ?case by simp
qed

lemma total_weight_pos:
  "fs \<noteq> [] \<Longrightarrow> 0 < foldl (\<lambda>t f. addD t (weights (severity f))) 0 fs"
proof (cases fs)
  case Nil
  then show "fs \<noteq> [] \<Longrightarrow> ?thesis" by simp
next
  case (Cons f fs')
  have "fl 0.1 \<le> addD 0 (weights (severity f))" by (rule total_weight_step) simp
  from total_weight_lower [OF this, of fs'] fl_weights_order(1) Cons
  show ?thesis by simp
qed

text \<open>
  With scores between 0 and 1 the weighted sum stays between 0 and the sum of the
  weights, because the rounding is monotone.
\<close>

lemma weighted_sum_bounds:
  "\<forall>f\<in>set fs. 0 \<le> score f \<and> score f \<le> 1 \<Longrightarrow> 0 \<le> a \<Longrightarrow> a \<le> b \<Longrightarrow>
     0 \<le> foldl (\<lambda>t f. addD t (mulD (score f) (weights (severity f)))) a fs \<and>
     foldl (\<lambda>t f. addD t (mulD (score f) (weights (severity f)))) a fs
       \<le> foldl (\<lambda>t f. addD t (weights (severity f))) b fs"
proof (induction fs arbitrary: a b)
  case Nil
  then show ?case by simp
next
  case (Cons f fs)
  let ?w = "weights (severity f)"
  from Cons.prems have s: "0 \<le> score f" "score f \<le> 1" by simp_all
  have w: "0 < ?w" by (rule weights_pos)
  have "0 \<le> score f * ?w" using s w by simp
  then have p0: "0 \<le> mulD (score f) ?w" unfolding mulD_def by (rule fl_nonneg)
  have "score f * ?w \<le> 1 * ?w" using s w by (intro mult_right_mono) simp_all
  then have "fl (score f * ?w) \<le> fl ?w" using fl_mono by simp
  then have p1: "mulD (score f) ?w \<le> ?w" by (simp add: mulD_def weights_fixed)
  have a0: "0 \<le> addD a (mulD (score f) ?w)"
    unfolding addD_def using Cons.prems(2) p0 by (intro fl_nonneg) simp
  have ab: "addD a (mulD (score f) ?w) \<le> addD b ?w"
    unfolding addD_def using Cons.prems(3) p1 by (intro fl_mono) simp
  from Cons.prems(1) have "\<forall>f\<in>set fs. 0 \<le> score f \<and> score f \<le> 1" by simp
  from Cons.IH [OF this a0 ab] show ?case by simp
qed

lemma calculateOverallScore_quotient:
  "fs \<noteq> [] \<Longrightarrow>
     calculateOverallScore fs =
       divD (foldl (\<lambda>t f. addD t (mulD (score f) (weights (severity f)))) 0 fs)
            (foldl (\<lambda>t f. addD t (weights (severity f))) 0 fs)"
  using total_weight_pos [of fs]
  by (simp add: calculateOverallScore_def foldl_accumulate Let_def)

text \<open>
  C1. The recommendation is a first-match decision tree: a CRITICAL factor gives REJECT;
  otherwise a HIGH factor or a score of at least 0.7 gives MANUAL_REVIEW; otherwise a
  score of at most 0.2 gives AUTO_APPROVE; otherwise MANUAL_REVIEW. In particular a list
  with a CRITICAL factor is rejected whatever the score and the other factors are.
\<close>

theorem determineRecommendation_decision_tree:
  "determineRecommendation s factors =
     (if \<exists>f\<in>set factors. severity f = CRITICAL then REJECT
      else if (\<exists>f\<in>set factors. severity f = HIGH) \<or> s \<ge> fl 0.7 then MANUAL_REVIEW
      else if s \<le> fl 0.2 then AUTO_APPROVE
      else MANUAL_REVIEW)
   \<and> (severity c = CRITICAL \<longrightarrow> determineRecommendation s (pre @ c # post) = REJECT)"
  by (simp add: determineRecommendation_def Let_def filter_nonempty_iff
      MANUAL_REVIEW_THRESHOLD_def AUTO_APPROVE_THRESHOLD_def del: length_greater_0_conv)

theorem determineRecommendation_decision_tree_witness:
  "determineRecommendation 0
     ([\<lparr>ftype = ''UNUSUAL_TIMING'', severity = LOW, score = fl 0.1, description = ''t''\<rparr>]
      @ \<lparr>ftype = ''KYC_REJECTED'', severity = CRITICAL, score = fl 1.0, description = ''k''\<rparr>
      # [\<lparr>ftype = ''NO_DOCUMENTS'', severity = HIGH, score = fl 0.8, description = ''d''\<rparr>])
     = REJECT
   \<and> determineRecommendation (fl 0.2) [] = AUTO_APPROVE
   \<and> determineRecommendation (fl 0.5) [] = MANUAL_REVIEW
   \<and> determineRecommendation (fl 0.7) [] = MANUAL_REVIEW
   \<and> determineRecommendation 0
        [\<lparr>ftype = ''NO_DOCUMENTS'', severity = HIGH, score = fl 0.8, description = ''d''\<rparr>]
      = MANUAL_REVIEW"
  using determineRecommendation_decision_tree
          [where s = 0
             and c = "\<lparr>ftype = ''KYC_REJECTED'', severity = CRITICAL, score = fl 1.0, description = ''k''\<rparr>"
             and pre = "[\<lparr>ftype = ''UNUSUAL_TIMING'', severity = LOW, score = fl 0.1, description = ''t''\<rparr>]"
             and post = "[\<lparr>ftype = ''NO_DOCUMENTS'', severity = HIGH, score = fl 0.8, description = ''d''\<rparr>]"]
        determineRecommendation_decision_tree [where s = "fl 0.2" and factors = "[]"]
        determineRecommendation_decision_tree [where s = "fl 0.5" and factors = "[]"]
        determineRecommendation_decision_tree [where s = "fl 0.7" and factors = "[]"]
        determineRecommendation_decision_tree
          [where s = 0
             and factors = "[\<lparr>ftype = ''NO_DOCUMENTS'', severity = HIGH, score = fl 0.8, description = ''d''\<rparr>]"]
        fl_thresholds_order
  by simp

text \<open>
  C3 (as the code has it). For a non-empty factor list the overall score is the quotient
  of the sum of the products score times weight by the sum of the weights, evaluated in
  binary64 arithmetic in list order: every product, every running sum and the quotient is
  rounded. The weights are LOW 0.1, MEDIUM 0.3, HIGH 0.6, CRITICAL 1.0. When every factor
  score lies in [0,1] so does the overall score; the empty list scores exactly 0.
\<close>

theorem calculateOverallScore_rounded_mean:
  "(factors \<noteq> [] \<longrightarrow>
      calculateOverallScore factors =
        divD (foldl (\<lambda>t f. addD t (mulD (score f) (weights (severity f)))) 0 factors)
             (foldl (\<lambda>t f. addD t (weights (severity f))) 0 factors))
   \<and> ((\<forall>f\<in>set factors. 0 \<le> score f \<and> score f \<le> 1) \<longrightarrow>
        0 \<le> calculateOverallScore factors \<and> calculateOverallScore factors \<le> 1)
   \<and> calculateOverallScore [] = 0
   \<and> weights LOW = fl 0.1 \<and> weights MEDIUM = fl 0.3 \<and> weights HIGH = fl 0.6
   \<and> weights CRITICAL = fl 1.0"
proof -
  have bounds: "0 \<le> calculateOverallScore factors \<and> calculateOverallScore factors \<le> 1"
    if range: "\<forall>f\<in>set factors. 0 \<le> score f \<and> score f \<le> 1"
  proof (cases "factors = []")
    case True
    then show ?thesis by (simp add: calculateOverallScore_def)
  next
    case False
    let ?ws = "foldl (\<lambda>t f. addD t (mulD (score f) (weights (severity f)))) 0 factors"
    let ?w = "foldl (\<lambda>t f. addD t (weights (severity f))) 0 factors"
    have pos: "0 < ?w" using False by (rule total_weight_pos)
    from weighted_sum_bounds [OF range, of 0 0] have lo: "0 \<le> ?ws" and hi: "?ws \<le> ?w"
      by simp_all
    from pos lo have "0 \<le> ?ws / ?w" by simp
    then have r0: "0 \<le> fl (?ws / ?w)" by (rule fl_nonneg)
    from pos hi have "?ws / ?w \<le> 1" by simp
    then have "fl (?ws / ?w) \<le> fl 1" by (rule fl_mono)
    then have r1: "fl (?ws / ?w) \<le> 1" by simp
    from r0 r1 show ?thesis
      by (simp add: calculateOverallScore_quotient [OF False] divD_def)
  qed
  have empty: "calculateOverallScore [] = 0"
    by (simp add: calculateOverallScore_def)
  from bounds empty show ?thesis
    by (simp add: calculateOverallScore_quotient)
qed

theorem calculateOverallScore_rounded_mean_witness:
  "calculateOverallScore excessiveMessagingOnly = divD (addD 0 (mulD (fl 0.2) (fl 0.1))) (addD 0 (fl 0.1))
   \<and> 0 \<le> calculateOverallScore excessiveMessagingOnly
   \<and> calculateOverallScore excessiveMessagingOnly \<le> 1"
proof -
  have range: "\<forall>f\<in>set excessiveMessagingOnly. 0 \<le> score f \<and> score f \<le> 1"
    using fl_thresholds_order by (simp add: excessiveMessagingOnly_def)
  have ne: "excessiveMessagingOnly \<noteq> []" by (simp add: excessiveMessagingOnly_def)
  from calculateOverallScore_rounded_mean [of excessiveMessagingOnly] range ne
  show ?thesis by (simp add: excessiveMessagingOnly_def)
qed

text \<open>
  The claim C3 as the specification words it, with the exact weighted mean, does not hold
  of the code: for the single factor LOW(0.2) the weighted mean is the score 0.2 itself,
  and the code returns 0.20000000000000004.
\<close>

theorem calculateOverallScore_exact_mean_counterexample:
  "calculateOverallScore excessiveMessagingOnly
     \<noteq> (\<Sum>f\<leftarrow>excessiveMessagingOnly. score f * weights (severity f))
         / (\<Sum>f\<leftarrow>excessiveMessagingOnly. weights (severity f))
   \<and> calculateOverallScore excessiveMessagingOnly = fl 0.20000000000000004
   \<and> fl 0.20000000000000004 \<noteq> fl 0.2"
  by code_simp

section \<open>Properties of the risk assessors and the orchestrator\<close>






















lemma assessCommunicationRisk_no_messages:
  "chatMessages order = [] \<Longrightarrow>
     assessCommunicationRisk order fs =
       fs @ [\<lparr>ftype = ''NO_COMMUNICATION'', severity = MEDIUM, score = fl 0.3,
               description = ''No communication from counterparty''\<rparr>]"
  by (simp add: assessCommunicationRisk_def)

text \<open>
  C8, at an order whose single chat message is not from the counterparty: the
  counterparty has authored no message, and the communication assessor pushes no factor
  at all, neither \<^verbatim>\<open>NO_COMMUNICATION\<close> nor any other.
\<close>

theorem assessCommunicationRisk_operator_only:
  "filter isFromUser (chatMessages operatorOnlyOrder) = []
   \<and> assessCommunicationRisk operatorOnlyOrder [] = []"
  by (simp add: assessCommunicationRisk_def operatorOnlyOrder_def Let_def)

lemma assessKYCRisk_low_score:
  "kycVerification order = Some kyc \<Longrightarrow> kyc_status kyc \<noteq> ''REJECTED'' \<Longrightarrow>
   kyc_status kyc \<noteq> ''REQUIRES_REVIEW'' \<Longrightarrow> riskScore kyc = Some v \<Longrightarrow>
   v \<noteq> 0 \<Longrightarrow> v < fl 0.6 \<Longrightarrow>
     assessKYCRisk order fs =
       fs @ [\<lparr>ftype = ''LOW_KYC_SCORE'', severity = MEDIUM, score = fl 0.5,
               description = ''KYC verification score is below threshold''\<rparr>]"
  by (simp add: assessKYCRisk_def presentAndBelow_def truthyNumber_def)

text \<open>
  C9, at an approved KYC record whose stored risk score is 0: the score is below 0.6, and
  the KYC assessor pushes no factor, because the number 0 is falsy in the guard
  \<^verbatim>\<open>kyc.riskScore && kyc.riskScore < 0.6\<close>.
\<close>

theorem assessKYCRisk_zero_score:
  "assessKYCRisk zeroScoreKycOrder [] = []"
  by (simp add: assessKYCRisk_def zeroScoreKycOrder_def presentAndBelow_def truthyNumber_def)

section \<open>Properties of the KYC scorer and classifier\<close>

lemma startsWith_iff: "startsWith s k \<longleftrightarrow> (\<exists>q. s = k @ q)"
  by (induction s k rule: startsWith.induct) auto

lemma str_includes_iff: "str_includes s k \<longleftrightarrow> (\<exists>p q. s = p @ k @ q)"
proof (induction s)
  case Nil
  then show ?case by auto
next
  case (Cons c cs)
  show ?case
  proof
    assume "str_includes (c # cs) k"
    then consider "startsWith (c # cs) k" | "str_includes cs k" by auto
    then show "\<exists>p q. c # cs = p @ k @ q"
    proof cases
      case 1
      then obtain q where "c # cs = k @ q" by (auto simp: startsWith_iff)
      then have "c # cs = [] @ k @ q" by simp
      then show ?thesis by blast
    next
      case 2
      then obtain p q where "cs = p @ k @ q" using Cons.IH by blast
      then have "c # cs = (c # p) @ k @ q" by simp
      then show ?thesis by blast
    qed
  next
    assume "\<exists>p q. c # cs = p @ k @ q"
    then obtain p q where e: "c # cs = p @ k @ q" by blast
    show "str_includes (c # cs) k"
    proof (cases p)
      case Nil
      with e have "startsWith (c # cs) k" by (auto simp: startsWith_iff)
      then show ?thesis by simp
    next
      case (Cons a p')
      with e have "cs = p' @ k @ q" by simp
      then have "str_includes cs k" using Cons.IH by blast
      then show ?thesis by simp
    qed
  qed
qed

lemma weightOrZero_values:
  "weightOrZero ''documentValid'' = fl 0.3"
  "weightOrZero ''faceMatch'' = fl 0.2"
  "weightOrZero ''livenessCheck'' = fl 0.15"
  "weightOrZero ''sanctionsCheck'' = fl 0.25"
  "weightOrZero ''addressVerification'' = fl 0.1"
  by code_simp+

lemma calculateKYCScore_sum:
  "calculateKYCScore r =
     max 0 (subD (foldl addD 0
                    (map snd (filter fst
                       [(documentValid (checks r), fl 0.30),
                        (faceMatch (checks r), fl 0.20),
                        (livenessCheck (checks r), fl 0.15),
                        (sanctionsCheck (checks r), fl 0.25),
                        (addressVerification (checks r), fl 0.10)])))
                 (mulD (real (length (riskFactors r))) (fl 0.1)))"
  using weightOrZero_values
  by (simp add: calculateKYCScore_def checkEntries_def addCheck_def Let_def)

text \<open>
  C5 (as the code has it). The KYC score is the sum, in binary64 arithmetic and in the
  order documentValid, faceMatch, livenessCheck, sanctionsCheck, addressVerification, of
  the fixed weights 0.30, 0.20, 0.15, 0.25, 0.10 of the checks that are true, minus the
  product of the number of accumulated risk reasons by 0.1, every sum, the product and the
  difference being rounded, floored at 0; it is never negative.
\<close>

theorem calculateKYCScore_rounded_formula:
  "calculateKYCScore r =
     max 0 (subD (foldl addD 0
                    (map snd (filter fst
                       [(documentValid (checks r), fl 0.30),
                        (faceMatch (checks r), fl 0.20),
                        (livenessCheck (checks r), fl 0.15),
                        (sanctionsCheck (checks r), fl 0.25),
                        (addressVerification (checks r), fl 0.10)])))
                 (mulD (real (length (riskFactors r))) (fl 0.1)))
   \<and> 0 \<le> calculateKYCScore r"
proof
  show "calculateKYCScore r =
     max 0 (subD (foldl addD 0
                    (map snd (filter fst
                       [(documentValid (checks r), fl 0.30),
                        (faceMatch (checks r), fl 0.20),
                        (livenessCheck (checks r), fl 0.15),
                        (sanctionsCheck (checks r), fl 0.25),
                        (addressVerification (checks r), fl 0.10)])))
                 (mulD (real (length (riskFactors r))) (fl 0.1)))"
    by (rule calculateKYCScore_sum)
  show "0 \<le> calculateKYCScore r"
    by (simp add: calculateKYCScore_def Let_def)
qed

theorem calculateKYCScore_rounded_formula_witness:
  "calculateKYCScore scenario3
     = max 0 (subD (foldl addD 0 [fl 0.30, fl 0.20, fl 0.15, fl 0.10]) (mulD 1 (fl 0.1)))
   \<and> 0 \<le> calculateKYCScore scenario3"
  using calculateKYCScore_rounded_formula [of scenario3]
  by (simp add: scenario3_def)

text \<open>
  The claim C5 as the specification words it, with the exact sum and difference, does
  not hold of the code: with the document, liveness and sanctions checks passed and four
  risk reasons the exact value is 0.30 + 0.15 + 0.25 - 0.4 = 0.3, and the code returns
  0.29999999999999993, which is below the rejection threshold 0.3.
\<close>

theorem calculateKYCScore_exact_formula_counterexample:
  "calculateKYCScore fourReasons
     \<noteq> max 0 (0.30 + 0.15 + 0.25 - 0.1 * real (length (riskFactors fourReasons)))
   \<and> calculateKYCScore fourReasons = fl 0.29999999999999993
   \<and> calculateKYCScore fourReasons < fl 0.3
   \<and> determineKYCStatus (fourReasons\<lparr>kyc_score := calculateKYCScore fourReasons\<rparr>) = REJECTED"
  by code_simp

lemma scenario3_score:
  "max 0 (subD (addD (addD (addD (addD 0 (fl 0.3)) (fl 0.2)) (fl 0.15)) (fl 0.1))
            (mulD 1 (fl 0.1))) = fl 0.65"
  by code_simp

text \<open>
  C4. The classifier returns APPROVED exactly when the score is at least 0.9 and there is
  no risk reason; REJECTED when the score is below 0.3 or some reason contains
  \<^verbatim>\<open>sanctions\<close>; REQUIRES_REVIEW in every remaining case. With documentValid,
  faceMatch, livenessCheck and addressVerification true, sanctionsCheck false and exactly
  one reason, which mentions sanctions, the score is 0.65 and the status is REJECTED.
\<close>

theorem determineKYCStatus_classification:
  "(determineKYCStatus r = APPROVED \<longleftrightarrow> kyc_score r \<ge> fl 0.9 \<and> riskFactors r = [])
   \<and> (kyc_score r < fl 0.3 \<or> (\<exists>f\<in>set (riskFactors r). str_includes f ''sanctions'') \<longrightarrow>
        determineKYCStatus r = REJECTED)
   \<and> (\<not> (kyc_score r \<ge> fl 0.9 \<and> riskFactors r = []) \<and>
      \<not> (kyc_score r < fl 0.3 \<or> (\<exists>f\<in>set (riskFactors r). str_includes f ''sanctions'')) \<longrightarrow>
        determineKYCStatus r = REQUIRES_REVIEW)
   \<and> (checks r = \<lparr>documentValid = True, faceMatch = True, livenessCheck = True,
                   sanctionsCheck = False, addressVerification = True\<rparr> \<and>
      riskFactors r = [reason] \<and> str_includes reason ''sanctions'' \<longrightarrow>
        calculateKYCScore r = fl 0.65 \<and>
        determineKYCStatus (r\<lparr>kyc_score := calculateKYCScore r\<rparr>) = REJECTED)"
proof -
  have classes:
    "(determineKYCStatus r = APPROVED \<longleftrightarrow> kyc_score r \<ge> fl 0.9 \<and> riskFactors r = [])
     \<and> (kyc_score r < fl 0.3 \<or> (\<exists>f\<in>set (riskFactors r). str_includes f ''sanctions'') \<longrightarrow>
          determineKYCStatus r = REJECTED)
     \<and> (\<not> (kyc_score r \<ge> fl 0.9 \<and> riskFactors r = []) \<and>
        \<not> (kyc_score r < fl 0.3 \<or> (\<exists>f\<in>set (riskFactors r). str_includes f ''sanctions'')) \<longrightarrow>
          determineKYCStatus r = REQUIRES_REVIEW)"
    using fl_thresholds_order by (auto simp: determineKYCStatus_def list_ex_iff)
  have scenario:
    "calculateKYCScore r = fl 0.65 \<and>
     determineKYCStatus (r\<lparr>kyc_score := calculateKYCScore r\<rparr>) = REJECTED"
    if c: "checks r = \<lparr>documentValid = True, faceMatch = True, livenessCheck = True,
                       sanctionsCheck = False, addressVerification = True\<rparr>"
      and f: "riskFactors r = [reason]" and s: "str_includes reason ''sanctions''"
  proof -
    have "calculateKYCScore r = fl 0.65"
      using scenario3_score by (simp add: calculateKYCScore_sum c f)
    moreover have "determineKYCStatus (r\<lparr>kyc_score := calculateKYCScore r\<rparr>) = REJECTED"
      using s by (simp add: determineKYCStatus_def f)
    ultimately show ?thesis by simp
  qed
  from classes scenario show ?thesis by blast
qed

theorem determineKYCStatus_classification_witness:
  "calculateKYCScore scenario3 = fl 0.65
   \<and> determineKYCStatus (scenario3\<lparr>kyc_score := calculateKYCScore scenario3\<rparr>) = REJECTED"
proof -
  have h: "checks scenario3 = \<lparr>documentValid = True, faceMatch = True, livenessCheck = True,
                                sanctionsCheck = False, addressVerification = True\<rparr> \<and>
           riskFactors scenario3 = [''Name found on sanctions list''] \<and>
           str_includes ''Name found on sanctions list'' ''sanctions''"
    by (simp add: scenario3_def)
  from determineKYCStatus_classification
         [where r = scenario3 and reason = "''Name found on sanctions list''"] h
  show ?thesis by blast
qed

section \<open>Properties of the verification pipeline\<close>

lemma extractEntry_checks: "checks (extractEntry r entry) = checks r"
  by (simp add: extractEntry_def Let_def)

lemma extractPersonalInfo_checks: "checks (extractPersonalInfo extracted r) = checks r"
  unfolding extractPersonalInfo_def
  by (induction extracted arbitrary: r) (simp_all add: extractEntry_checks)

lemma performDocumentChecks_sanctions:
  "performDocumentChecks env d r w = (e, r', w') \<Longrightarrow>
     sanctionsCheck (checks r') = sanctionsCheck (checks r)"
  by (auto simp: performDocumentChecks_def Let_def split: sum.splits option.splits prod.splits)

lemma processIdentityDocument_sanctions:
  "processIdentityDocument env d r w = (e, r', w') \<Longrightarrow>
     sanctionsCheck (checks r') = sanctionsCheck (checks r)"
  by (auto simp: processIdentityDocument_def pushRiskFactor_def Let_def
      extractPersonalInfo_checks
      dest!: performDocumentChecks_sanctions
      split: sum.splits option.splits if_splits prod.splits)

lemma processDocuments_sanctions:
  "processDocuments env ds r w = (e, r', w') \<Longrightarrow>
     sanctionsCheck (checks r') = sanctionsCheck (checks r)"
proof (induction ds arbitrary: r w)
  case Nil
  then show ?case by simp
next
  case (Cons d ds)
  obtain e1 r1 w1 where step: "processIdentityDocument env (doc_id d) r w = (e1, r1, w1)"
    by (cases "processIdentityDocument env (doc_id d) r w") auto
  note s1 = processIdentityDocument_sanctions [OF step]
  show ?case
  proof (cases e1)
    case None
    with Cons.prems step have "processDocuments env ds r1 w1 = (e, r', w')" by simp
    from Cons.IH [OF this] s1 show ?thesis by simp
  next
    case (Some a)
    with Cons.prems step have "r' = r1" by simp
    with s1 show ?thesis by simp
  qed
qed

lemma performSanctionsCheck_extractedData:
  "performSanctionsCheck env r w = (r', w') \<Longrightarrow> extractedData r' = extractedData r"
  by (auto simp: performSanctionsCheck_def pushRiskFactor_def Let_def
      split: if_splits prod.splits)

lemma performSanctionsCheck_no_name:
  "\<not> truthyString (fullName (extractedData r)) \<Longrightarrow>
     performSanctionsCheck env r w = (pushRiskFactor ''No name available for sanctions check'' r, w)"
  by (simp add: performSanctionsCheck_def)

lemma sanctions_reason_mentions:
  "str_includes ''No name available for sanctions check'' ''sanctions''"
  by simp

lemma determineKYCStatus_sanctions_reason:
  "''No name available for sanctions check'' \<in> set (riskFactors r) \<Longrightarrow>
     determineKYCStatus r = REJECTED"
  using sanctions_reason_mentions
  by (auto simp: determineKYCStatus_def list_ex_iff)

lemma tryBody_no_name:
  assumes run: "tryBody env orderId ds initialResult w = (e, r, w')"
    and noname: "\<not> truthyString (fullName (extractedData r))"
  shows "\<not> sanctionsCheck (checks r) \<and>
         (e = None \<longrightarrow> ''No name available for sanctions check'' \<in> set (riskFactors r)
                      \<and> status r = REJECTED)"
proof -
  obtain e1 r1 w1 where docs: "processDocuments env ds initialResult w = (e1, r1, w1)"
    by (cases "processDocuments env ds initialResult w") auto
  have s1: "\<not> sanctionsCheck (checks r1)"
    using processDocuments_sanctions [OF docs] by (simp add: initialResult_def)
  show ?thesis
  proof (cases e1)
    case (Some a)
    with run docs have "r = r1" "e = Some a" by (simp_all add: tryBody_def)
    with s1 show ?thesis by simp
  next
    case None
    obtain r2 w2 where sc: "performSanctionsCheck env r1 w1 = (r2, w2)"
      by (cases "performSanctionsCheck env r1 w1") auto
    define r4 where "r4 = r2\<lparr>kyc_score := calculateKYCScore r2,
                             status := determineKYCStatus (r2\<lparr>kyc_score := calculateKYCScore r2\<rparr>)\<rparr>"
    from run docs None sc have r: "r = r4"
      by (auto simp: tryBody_def Let_def r4_def split: prod.splits)
    have "extractedData r1 = extractedData r"
      using performSanctionsCheck_extractedData [OF sc] r by (simp add: r4_def)
    with noname have "\<not> truthyString (fullName (extractedData r1))" by simp
    from performSanctionsCheck_no_name [OF this, of env w1] sc
    have r2: "r2 = pushRiskFactor ''No name available for sanctions check'' r1" by simp
    have mem: "''No name available for sanctions check'' \<in> set (riskFactors r2)"
      by (simp add: r2 pushRiskFactor_def)
    have "determineKYCStatus (r2\<lparr>kyc_score := calculateKYCScore r2\<rparr>) = REJECTED"
      by (rule determineKYCStatus_sanctions_reason) (simp add: mem)
    with mem s1 show ?thesis by (simp add: r r4_def r2 pushRiskFactor_def)
  qed
qed

lemma tryBody_noName:
  "tryBody kycEnv ''order-4'' [noNameDocument] initialResult emptyWorld =
     (None, noNameResult,
      \<lparr>kycVerifications =
         [\<lparr>kv_orderId = ''order-4'', kv_status = REJECTED,
           kv_verificationData = noNameResult, kv_riskScore = fl 0.55\<rparr>],
       randomCalls = 3\<rparr>)"
  by code_simp

lemma pipelineCompletes_noName: "pipelineCompletes kycEnv emptyWorld ''order-4''"
proof -
  have "filter (\<lambda>doc. fileType doc \<in> set identityDocumentTypes) (documents noNameOrder)
          = [noNameDocument]"
    by (simp add: noNameOrder_def noNameDocument_def selfieDocument_def
        identityDocumentTypes_def)
  then show ?thesis
    using tryBody_noName
    by (simp add: pipelineCompletes_def Let_def)
       (simp add: kycEnv_def)
qed

text \<open>
  C10. Whenever the \<^verbatim>\<open>try\<close> block of \<^verbatim>\<open>verifyIdentity\<close> runs to its end, a result
  is returned, and if that result carries no full name (absent or empty) then its risk
  reasons contain \<^verbatim>\<open>No name available for sanctions check\<close>, its sanctions check is
  false and its status is REJECTED, whatever the score is.
\<close>

theorem verifyIdentity_no_name_rejected:
  assumes "pipelineCompletes env w orderId"
  shows "\<exists>r w'. verifyIdentity env w orderId = (Inr r, w') \<and>
           (\<not> truthyString (fullName (extractedData r)) \<longrightarrow>
              ''No name available for sanctions check'' \<in> set (riskFactors r)
              \<and> \<not> sanctionsCheck (checks r)
              \<and> status r = REJECTED)"
proof -
  from assms obtain order where
    found: "order_findUnique env orderId = Inr (Some order)"
    by (auto simp: pipelineCompletes_def split: sum.splits option.splits)
  define ds where "ds = filter (\<lambda>doc. fileType doc \<in> set identityDocumentTypes) (documents order)"
  from assms found have ne: "length ds \<noteq> 0"
    and ok: "fst (tryBody env orderId ds initialResult w) = None"
    by (simp_all add: pipelineCompletes_def Let_def ds_def)
  obtain r w' where run: "tryBody env orderId ds initialResult w = (None, r, w')"
    using ok by (cases "tryBody env orderId ds initialResult w") auto
  have ret: "verifyIdentity env w orderId = (Inr r, w')"
    using found ne run by (simp add: verifyIdentity_def Let_def ds_def [symmetric])
  from tryBody_no_name [OF run] ret show ?thesis by blast
qed

lemma verifyIdentity_noName:
  "verifyIdentity kycEnv emptyWorld ''order-4'' =
     (Inr noNameResult,
      \<lparr>kycVerifications =
         [\<lparr>kv_orderId = ''order-4'', kv_status = REJECTED,
           kv_verificationData = noNameResult, kv_riskScore = fl 0.55\<rparr>],
       randomCalls = 3\<rparr>)"
proof -
  have "filter (\<lambda>doc. fileType doc \<in> set identityDocumentTypes) (documents noNameOrder)
          = [noNameDocument]"
    by (simp add: noNameOrder_def noNameDocument_def selfieDocument_def
        identityDocumentTypes_def)
  then show ?thesis
    using tryBody_noName
    by (simp add: verifyIdentity_def Let_def)
       (simp add: kycEnv_def)
qed

theorem verifyIdentity_no_name_rejected_witness:
  "\<exists>r w'. verifyIdentity kycEnv emptyWorld ''order-4'' = (Inr r, w')
          \<and> ''No name available for sanctions check'' \<in> set (riskFactors r)
          \<and> \<not> sanctionsCheck (checks r)
          \<and> status r = REJECTED"
proof -
  from verifyIdentity_no_name_rejected [OF pipelineCompletes_noName]
  obtain r w' where ret: "verifyIdentity kycEnv emptyWorld ''order-4'' = (Inr r, w')"
    and imp: "\<not> truthyString (fullName (extractedData r)) \<longrightarrow>
                ''No name available for sanctions check'' \<in> set (riskFactors r)
                \<and> \<not> sanctionsCheck (checks r) \<and> status r = REJECTED"
    by blast
  from ret have "r = noNameResult" by (simp add: verifyIdentity_noName)
  then have "\<not> truthyString (fullName (extractedData r))"
    by (simp add: noNameResult_def truthyString_def)
  with ret imp show ?thesis by blast
qed

text \<open>
  The status and the sanctions check are the same when the \<^verbatim>\<open>try\<close> block throws:
  every result that \<^verbatim>\<open>verifyIdentity\<close> returns without a full name is REJECTED.
\<close>

lemma verifyIdentity_returned_no_name:
  assumes ret: "verifyIdentity env w orderId = (Inr r, w')"
    and noname: "\<not> truthyString (fullName (extractedData r))"
  shows "\<not> sanctionsCheck (checks r) \<and> status r = REJECTED"
proof (cases "order_findUnique env orderId")
  case (Inl a)
  with ret show ?thesis by (simp add: verifyIdentity_def)
next
  case (Inr found)
  show ?thesis
  proof (cases found)
    case None
    with Inr ret show ?thesis by (simp add: verifyIdentity_def)
  next
    case (Some order)
    define ds where
      "ds = filter (\<lambda>doc. fileType doc \<in> set identityDocumentTypes) (documents order)"
    show ?thesis
    proof (cases "length ds = 0")
      case True
      with Inr Some ret show ?thesis by (simp add: verifyIdentity_def Let_def ds_def)
    next
      case ne: False
      obtain e r0 w0 where run: "tryBody env orderId ds initialResult w = (e, r0, w0)"
        by (cases "tryBody env orderId ds initialResult w") auto
      show ?thesis
      proof (cases e)
        case None
        with ret Inr Some ne run have "r = r0"
          by (simp add: verifyIdentity_def Let_def ds_def [symmetric])
        with tryBody_no_name [OF run] noname None show ?thesis by simp
      next
        case (Some a)
        with ret Inr \<open>found = Some order\<close> ne run
        have r: "r = pushRiskFactor ''Verification process failed'' (r0\<lparr>status := REJECTED\<rparr>)"
          by (simp add: verifyIdentity_def Let_def ds_def [symmetric])
        from noname have "\<not> truthyString (fullName (extractedData r0))"
          by (simp add: r pushRiskFactor_def)
        from tryBody_no_name [OF run this] show ?thesis by (simp add: r pushRiskFactor_def)
      qed
    qed
  qed
qed

text \<open>
  C6. \<^verbatim>\<open>verifyIdentity\<close> fails with the error \<^verbatim>\<open>Order not found\<close> when the order
  does not exist, and with the error \<^verbatim>\<open>No identity documents found\<close> when no document
  of the order has the type ID_CARD, PASSPORT or DRIVERS_LICENSE. In both cases no result
  is returned and the world, with its table of stored verifications, is unchanged.
\<close>

theorem verifyIdentity_structural_failures:
  "(order_findUnique env orderId = Inr None \<longrightarrow>
      verifyIdentity env w orderId = (Inl (Error ''Order not found''), w))
   \<and> (order_findUnique env orderId = Inr (Some order) \<and>
      (\<forall>doc\<in>set (documents order).
         fileType doc \<notin> {''ID_CARD'', ''PASSPORT'', ''DRIVERS_LICENSE''}) \<longrightarrow>
      verifyIdentity env w orderId = (Inl (Error ''No identity documents found''), w))"
  by (auto simp: verifyIdentity_def Let_def identityDocumentTypes_def filter_empty_conv)

theorem verifyIdentity_structural_failures_witness:
  "verifyIdentity kycEnv emptyWorld ''order-9'' = (Inl (Error ''Order not found''), emptyWorld)
   \<and> verifyIdentity kycEnv emptyWorld ''order-5''
       = (Inl (Error ''No identity documents found''), emptyWorld)"
  using verifyIdentity_structural_failures
          [where env = kycEnv and orderId = "''order-9''" and w = emptyWorld]
        verifyIdentity_structural_failures
          [where env = kycEnv and orderId = "''order-5''" and w = emptyWorld
             and order = selfieOnlyOrder]
  by (simp add: kycEnv_def selfieOnlyOrder_def selfieDocument_def)

lemma validateDocument_table:
  "validateDocument env w = (b, w') \<Longrightarrow> kycVerifications w' = kycVerifications w"
  by (auto simp: validateDocument_def mathRandom_def)

lemma performFaceMatch_table:
  "performFaceMatch env w = (b, w') \<Longrightarrow> kycVerifications w' = kycVerifications w"
  by (auto simp: performFaceMatch_def mathRandom_def)

lemma performLivenessCheck_table:
  "performLivenessCheck env w = (b, w') \<Longrightarrow> kycVerifications w' = kycVerifications w"
  by (auto simp: performLivenessCheck_def mathRandom_def)

lemma verifyAddress_table:
  "verifyAddress env a w = (b, w') \<Longrightarrow> kycVerifications w' = kycVerifications w"
  by (auto simp: verifyAddress_def mathRandom_def split: if_splits)

lemma checkSanctionsList_table:
  "checkSanctionsList env n w = (b, w') \<Longrightarrow> kycVerifications w' = kycVerifications w"
  by (auto simp: checkSanctionsList_def mathRandom_def)

lemma performDocumentChecks_table:
  assumes "performDocumentChecks env d r w = (e, r', w')"
  shows "kycVerifications w' = kycVerifications w"
proof (cases "document_findFirstSelfie env (doc_orderId d)")
  case (Inl a)
  with assms show ?thesis by (simp add: performDocumentChecks_def)
next
  case (Inr selfieDoc)
  show ?thesis
  proof (cases selfieDoc)
    case None
    with Inr assms show ?thesis
      by (auto simp: performDocumentChecks_def Let_def split: prod.splits
          dest: verifyAddress_table)
  next
    case (Some s)
    obtain fm wa where fm: "performFaceMatch env w = (fm, wa)"
      by (cases "performFaceMatch env w") auto
    obtain lv wb where lv: "performLivenessCheck env wa = (lv, wb)"
      by (cases "performLivenessCheck env wa") auto
    from Inr Some assms fm lv
    obtain av where "verifyAddress env av wb = (addressVerification (checks r'), w')"
      by (auto simp: performDocumentChecks_def Let_def split: prod.splits)
    from verifyAddress_table [OF this] performLivenessCheck_table [OF lv]
      performFaceMatch_table [OF fm]
    show ?thesis by simp
  qed
qed

lemma processIdentityDocument_table:
  assumes "processIdentityDocument env d r w = (e, r', w')"
  shows "kycVerifications w' = kycVerifications w"
proof (cases "document_findUnique env d")
  case (Inl a)
  with assms show ?thesis by (simp add: processIdentityDocument_def)
next
  case (Inr found)
  show ?thesis
  proof (cases found)
    case None
    with Inr assms show ?thesis by (simp add: processIdentityDocument_def)
  next
    case (Some document)
    show ?thesis
    proof (cases "truthyString (ocrText document)")
      case False
      with Inr Some assms show ?thesis by (simp add: processIdentityDocument_def)
    next
      case True
      obtain isValid w1 where v: "validateDocument env w = (isValid, w1)"
        by (cases "validateDocument env w") auto
      note t1 = validateDocument_table [OF v]
      show ?thesis
      proof (cases isValid)
        case False
        with Inr Some True v assms have "w' = w1"
          by (simp add: processIdentityDocument_def Let_def)
        with t1 show ?thesis by simp
      next
        case isValid: True
        with Inr Some True v assms
        obtain r0 where "performDocumentChecks env document r0 w1 = (e, r', w')"
          by (simp add: processIdentityDocument_def Let_def)
        from performDocumentChecks_table [OF this] t1 show ?thesis by simp
      qed
    qed
  qed
qed

lemma processDocuments_table:
  "processDocuments env ds r w = (e, r', w') \<Longrightarrow> kycVerifications w' = kycVerifications w"
proof (induction ds arbitrary: r w)
  case Nil
  then show ?case by simp
next
  case (Cons d ds)
  obtain e1 r1 w1 where step: "processIdentityDocument env (doc_id d) r w = (e1, r1, w1)"
    by (cases "processIdentityDocument env (doc_id d) r w") auto
  note t1 = processIdentityDocument_table [OF step]
  show ?case
  proof (cases e1)
    case None
    with Cons.prems step have "processDocuments env ds r1 w1 = (e, r', w')" by simp
    from Cons.IH [OF this] t1 show ?thesis by simp
  next
    case (Some a)
    with Cons.prems step have "w' = w1" by simp
    with t1 show ?thesis by simp
  qed
qed

lemma performSanctionsCheck_table:
  "performSanctionsCheck env r w = (r', w') \<Longrightarrow> kycVerifications w' = kycVerifications w"
  by (auto simp: performSanctionsCheck_def Let_def split: if_splits prod.splits
      dest: checkSanctionsList_table)

lemma tryBody_table:
  assumes "tryBody env orderId ds r w = (e, r', w')"
  shows "if e = None
         then \<exists>row. kv_orderId row = orderId \<and> kv_verificationData row = r' \<and>
                kycVerifications w' = kycVerifications w @ [row]
         else kycVerifications w' = kycVerifications w"
proof -
  obtain e1 r1 w1 where docs: "processDocuments env ds r w = (e1, r1, w1)"
    by (cases "processDocuments env ds r w") auto
  note t1 = processDocuments_table [OF docs]
  show ?thesis
  proof (cases e1)
    case (Some a)
    with assms docs have "w' = w1" "e = Some a" by (simp_all add: tryBody_def)
    with t1 show ?thesis by simp
  next
    case None
    obtain r2 w2 where sc: "performSanctionsCheck env r1 w1 = (r2, w2)"
      by (cases "performSanctionsCheck env r1 w1") auto
    note t2 = performSanctionsCheck_table [OF sc]
    define r4 where
      "r4 = r2\<lparr>kyc_score := calculateKYCScore r2,
               status := determineKYCStatus (r2\<lparr>kyc_score := calculateKYCScore r2\<rparr>)\<rparr>"
    define row where
      "row = \<lparr>kv_orderId = orderId, kv_status = status r4,
              kv_verificationData = r4, kv_riskScore = kyc_score r4\<rparr>"
    have body: "tryBody env orderId ds r w =
                  (fst (kycVerification_create env row w2), r4,
                   snd (kycVerification_create env row w2))"
      using docs None sc
      by (simp add: tryBody_def Let_def r4_def row_def split: prod.splits)
    with assms have e: "e = fst (kycVerification_create env row w2)"
      and r': "r' = r4" and w': "w' = snd (kycVerification_create env row w2)"
      by simp_all
    show ?thesis
    proof (cases "createRejects env (kycVerifications w2) row")
      case None
      then have "e = None" and "kycVerifications w' = kycVerifications w2 @ [row]"
        by (simp_all add: e w' kycVerification_create_def)
      moreover have "kv_orderId row = orderId" and "kv_verificationData row = r'"
        by (simp_all add: row_def r')
      ultimately show ?thesis using t1 t2 by auto
    next
      case (Some a)
      then have "e = Some a" and "kycVerifications w' = kycVerifications w2"
        by (simp_all add: e w' kycVerification_create_def)
      then show ?thesis using t1 t2 by simp
    qed
  qed
qed

text \<open>
  By contrast, a run whose \<^verbatim>\<open>try\<close> block completes appends exactly one row, holding
  the returned result, to the table of stored verifications.
\<close>

lemma verifyIdentity_completed_run_stores_row:
  assumes "pipelineCompletes env w orderId"
  shows "\<exists>r w' row. verifyIdentity env w orderId = (Inr r, w') \<and>
           kv_orderId row = orderId \<and> kv_verificationData row = r \<and>
           kycVerifications w' = kycVerifications w @ [row]"
proof -
  from assms obtain order where
    found: "order_findUnique env orderId = Inr (Some order)"
    by (auto simp: pipelineCompletes_def split: sum.splits option.splits)
  define ds where "ds = filter (\<lambda>doc. fileType doc \<in> set identityDocumentTypes) (documents order)"
  from assms found have ne: "length ds \<noteq> 0"
    and ok: "fst (tryBody env orderId ds initialResult w) = None"
    by (simp_all add: pipelineCompletes_def Let_def ds_def)
  obtain r w' where run: "tryBody env orderId ds initialResult w = (None, r, w')"
    using ok by (cases "tryBody env orderId ds initialResult w") auto
  have ret: "verifyIdentity env w orderId = (Inr r, w')"
    using found ne run by (simp add: verifyIdentity_def Let_def ds_def [symmetric])
  from tryBody_table [OF run] ret show ?thesis by auto
qed


end
